theory Spec2Isabelle
  imports Complex_Main "HOL-Library.Sublist"
begin

section \<open>JavaScript strings and values\<close>

text \<open>
  Strings are lists of 8-bit characters. \<open>toLowerCase\<close> maps the ASCII capitals to
  their small letters and leaves every other character alone; \<open>trim\<close> removes the ASCII
  white space at both ends; \<open>str_includes s t\<close> is \<^verbatim>\<open>s.includes(t)\<close>.
\<close>

definition lower_char :: "char \<Rightarrow> char" where
  "lower_char c =
     (case map_of (zip ''ABCDEFGHIJKLMNOPQRSTUVWXYZ'' ''abcdefghijklmnopqrstuvwxyz'') c of
        Some d \<Rightarrow> d
      | None \<Rightarrow> c)"

definition toLowerCase :: "string \<Rightarrow> string" where
  "toLowerCase s = map lower_char s"

definition is_space :: "char \<Rightarrow> bool" where
  "is_space c = (c \<in> set [CHR '' '', CHR 0x09, CHR 0x0A, CHR 0x0B, CHR 0x0C, CHR 0x0D])"

definition trim :: "string \<Rightarrow> string" where
  "trim s = rev (dropWhile is_space (rev (dropWhile is_space s)))"

definition str_includes :: "string \<Rightarrow> string \<Rightarrow> bool" where
  "str_includes s t = sublist t s"

text \<open>
  A value read from the stored memory object is a string or something else. Of a value
  that is not a string the engine observes its truthiness (\<^verbatim>\<open>if (answer)\<close>), its
  string rendering (assignment to \<^verbatim>\<open>element.value\<close>) and that it has no
  \<^verbatim>\<open>toLowerCase\<close> method; \<open>JOther t r\<close> records the first two.
\<close>

datatype jsval = JStr string | JOther bool string

fun truthy :: "jsval \<Rightarrow> bool" where
  "truthy (JStr s) = (s \<noteq> [])"
| "truthy (JOther t r) = t"

fun to_string :: "jsval \<Rightarrow> string" where
  "to_string (JStr s) = s"
| "to_string (JOther t r) = r"

datatype js_error = TypeError | InvalidStateError | SyntaxError

fun answer_toLowerCase :: "jsval \<Rightarrow> js_error + string" where
  "answer_toLowerCase (JStr s) = Inr (toLowerCase s)"
| "answer_toLowerCase (JOther t r) = Inl TypeError"

section \<open>The document\<close>

text \<open>
  The document is the list of its elements in document order; an element is referred
  to by its position. A node carries the attributes and properties that the content
  script reads: \<open>n_labels\<close> is the text of the elements of \<^verbatim>\<open>el.labels\<close>,
  \<open>n_label_query\<close> the outcome of
  \<^verbatim>\<open>document.querySelector(`label[for="${el.id}"]`)\<close> for this element's id,
  \<open>n_descendants\<close> the positions of the elements below it, \<open>n_has_offsetParent\<close> is
  \<^verbatim>\<open>offsetParent !== null\<close>, \<open>n_required\<close> is
  \<^verbatim>\<open>el.required || el.hasAttribute('required')\<close>, \<open>n_width\<close> and \<open>n_height\<close> are those of
  \<^verbatim>\<open>getBoundingClientRect()\<close>, \<open>n_display\<close> and \<open>n_visibility\<close> those of the computed
  style, and \<open>n_rejects_files\<close> says that the host refuses the programmatic
  construction or assignment of a file list for this control.
\<close>

datatype query_result = QThrows | QNull | QLabel string

record select_option =
  opt_text :: string
  opt_value :: string

record node =
  n_tag :: string
  n_type :: string
  n_role :: string
  n_class :: string
  n_name :: string
  n_id :: string
  n_placeholder :: string
  n_required :: bool
  n_disabled :: bool
  n_has_offsetParent :: bool
  n_width :: real
  n_height :: real
  n_display :: string
  n_visibility :: string
  n_labels :: "string list"
  n_label_query :: query_result
  n_options :: "select_option list"
  n_rejects_files :: bool
  n_innerText :: string
  n_descendants :: "nat list"
  n_value :: string
  n_files :: "string list"

record page =
  p_nodes :: "node list"
  p_innerWidth :: real
  p_body_innerText :: string

datatype event_kind = InputEvent | ChangeEvent

section \<open>selectBestOption\<close>

text \<open>
  The two loops of \<^verbatim>\<open>selectBestOption\<close>. Each returns the first option its test
  accepts. \<^verbatim>\<open>answer.toLowerCase()\<close> is evaluated in the loop body, so an answer
  that is not a string raises a TypeError as soon as there is an option to look at.
\<close>

fun exact_loop :: "select_option list \<Rightarrow> jsval \<Rightarrow> js_error + select_option option" where
  "exact_loop [] answer = Inr None"
| "exact_loop (opt # opts) answer =
     (case answer_toLowerCase answer of
        Inl e \<Rightarrow> Inl e
      | Inr a \<Rightarrow>
          if toLowerCase (opt_text opt) = a then Inr (Some opt)
          else exact_loop opts answer)"

fun partial_loop :: "select_option list \<Rightarrow> jsval \<Rightarrow> js_error + select_option option" where
  "partial_loop [] answer = Inr None"
| "partial_loop (opt # opts) answer =
     (case answer_toLowerCase answer of
        Inl e \<Rightarrow> Inl e
      | Inr a \<Rightarrow>
          if str_includes (toLowerCase (opt_text opt)) a
             \<or> str_includes a (toLowerCase (opt_text opt))
          then Inr (Some opt)
          else partial_loop opts answer)"

text \<open>
  Assigning to \<^verbatim>\<open>value\<close>. On a select element the assignment selects the first
  option that has the value, and the value read back is empty when there is none. On a
  file input a non-empty string raises an InvalidStateError. Any other control stores
  the string (the value sanitisation of typed inputs such as number or date is not
  modelled).
\<close>

definition select_set_value :: "node \<Rightarrow> string \<Rightarrow> node" where
  "select_set_value el v =
     el\<lparr>n_value := (if v \<in> set (map opt_value (n_options el)) then v else [])\<rparr>"

definition set_value :: "node \<Rightarrow> string \<Rightarrow> js_error + node" where
  "set_value el v =
     (if n_tag el = ''select'' then Inr (select_set_value el v)
      else if n_type el = ''file'' then
        (if v = [] then Inr (el\<lparr>n_value := [], n_files := []\<rparr>) else Inl InvalidStateError)
      else Inr (el\<lparr>n_value := v\<rparr>))"

text \<open>
  The result is the returned boolean, the select element after the call and the events
  dispatched on it.
\<close>

definition selectBestOption ::
  "node \<Rightarrow> jsval \<Rightarrow> js_error + (bool \<times> node \<times> event_kind list)" where
  "selectBestOption selectElement answer =
     (case exact_loop (n_options selectElement) answer of
        Inl e \<Rightarrow> Inl e
      | Inr (Some opt) \<Rightarrow>
          Inr (True, select_set_value selectElement (opt_value opt), [ChangeEvent])
      | Inr None \<Rightarrow>
          (case partial_loop (n_options selectElement) answer of
             Inl e \<Rightarrow> Inl e
           | Inr (Some opt) \<Rightarrow>
               Inr (True, select_set_value selectElement (opt_value opt), [ChangeEvent])
           | Inr None \<Rightarrow> Inr (False, selectElement, [])))"

text \<open>
  The Option Matcher as the specification words it: rule 1, a case-insensitive exact
  match of the answer against an option's display text; rule 2, a case-insensitive
  substring match in either direction; the first option that matches wins.
\<close>

definition matches_exactly :: "string \<Rightarrow> select_option \<Rightarrow> bool" where
  "matches_exactly a opt = (toLowerCase (opt_text opt) = toLowerCase a)"

definition matches_partially :: "string \<Rightarrow> select_option \<Rightarrow> bool" where
  "matches_partially a opt =
     (str_includes (toLowerCase (opt_text opt)) (toLowerCase a)
      \<or> str_includes (toLowerCase a) (toLowerCase (opt_text opt)))"

definition option_matcher_spec :: "node \<Rightarrow> string \<Rightarrow> bool \<times> node \<times> event_kind list" where
  "option_matcher_spec ctl a =
     (case find (matches_exactly a) (n_options ctl) of
        Some opt \<Rightarrow> (True, ctl\<lparr>n_value := opt_value opt\<rparr>, [ChangeEvent])
      | None \<Rightarrow>
          (case find (matches_partially a) (n_options ctl) of
             Some opt \<Rightarrow> (True, ctl\<lparr>n_value := opt_value opt\<rparr>, [ChangeEvent])
           | None \<Rightarrow> (False, ctl, [])))"

definition years_options :: "string \<Rightarrow> string \<Rightarrow> string \<Rightarrow> select_option list" where
  "years_options v1 v2 v3 =
     [\<lparr>opt_text = ''0-1 years'', opt_value = v1\<rparr>,
      \<lparr>opt_text = ''1-2 years'', opt_value = v2\<rparr>,
      \<lparr>opt_text = ''2-3 years'', opt_value = v3\<rparr>]"

section \<open>The memory object and the extension's storage\<close>

text \<open>
  \<^verbatim>\<open>qaMemory\<close> is a plain object: a finite map from keys to values. Reading
  \<^verbatim>\<open>qaMemory[k]\<close> finds an own property first and a member of
  \<^verbatim>\<open>Object.prototype\<close> otherwise; writing a string to \<^verbatim>\<open>qaMemory[k]\<close> creates or
  replaces the own property, except that the inherited accessor \<^verbatim>\<open>__proto__\<close>
  ignores a string.
\<close>

type_synonym memory = "string \<rightharpoonup> jsval"

definition native_function :: "string \<Rightarrow> jsval" where
  "native_function name = JOther True (''function '' @ name @ ''() { [native code] }'')"

definition object_prototype :: "(string \<times> jsval) list" where
  "object_prototype =
     [(''constructor'', native_function ''Object''),
      (''__defineGetter__'', native_function ''__defineGetter__''),
      (''__defineSetter__'', native_function ''__defineSetter__''),
      (''hasOwnProperty'', native_function ''hasOwnProperty''),
      (''__lookupGetter__'', native_function ''__lookupGetter__''),
      (''__lookupSetter__'', native_function ''__lookupSetter__''),
      (''isPrototypeOf'', native_function ''isPrototypeOf''),
      (''propertyIsEnumerable'', native_function ''propertyIsEnumerable''),
      (''toString'', native_function ''toString''),
      (''valueOf'', native_function ''valueOf''),
      (''__proto__'', JOther True ''[object Object]''),
      (''toLocaleString'', native_function ''toLocaleString'')]"

definition mem_get :: "memory \<Rightarrow> string \<Rightarrow> jsval option" where
  "mem_get m k = (case m k of Some v \<Rightarrow> Some v | None \<Rightarrow> map_of object_prototype k)"

definition mem_set :: "memory \<Rightarrow> string \<Rightarrow> string \<Rightarrow> memory" where
  "mem_set m k s = (if k = ''__proto__'' \<and> m k = None then m else m(k \<mapsto> JStr s))"

record asset =
  a_name :: string
  a_data :: string
  a_type :: string
  a_size :: nat

text \<open>
  The part of \<^verbatim>\<open>chrome.storage.local\<close> that the engine and the popup use. A key that
  was never written is \<open>None\<close>; \<^verbatim>\<open>const { qaMemory = {} } = ...\<close> reads it as the
  empty object.
\<close>

record storage =
  s_qaMemory :: "memory option"
  s_resume :: "asset option"
  s_coverLetter :: "asset option"

definition stored_memory :: "storage \<Rightarrow> memory" where
  "stored_memory stg = (case s_qaMemory stg of None \<Rightarrow> Map.empty | Some m \<Rightarrow> m)"

section \<open>findAllFields\<close>

record form_field =
  f_element :: nat
  f_tag :: string
  f_type :: string
  f_name :: string
  f_id :: string
  f_label :: string
  f_placeholder :: string
  f_required :: bool

text \<open>\<^verbatim>\<open>a || b\<close> on strings.\<close>

definition js_or :: "string \<Rightarrow> string \<Rightarrow> string" where
  "js_or a b = (if a \<noteq> [] then a else b)"

text \<open>\<^verbatim>\<open>document.querySelectorAll\<close>: the positions of the matching elements, in order.\<close>

definition querySelectorAll :: "(node \<Rightarrow> bool) \<Rightarrow> page \<Rightarrow> nat list" where
  "querySelectorAll sel p = filter (\<lambda>i. sel (p_nodes p ! i)) [0..<length (p_nodes p)]"

definition is_form_control :: "node \<Rightarrow> bool" where
  "is_form_control el = (n_tag el = ''input'' \<or> n_tag el = ''textarea'' \<or> n_tag el = ''select'')"

definition is_visible_field :: "node \<Rightarrow> bool" where
  "is_visible_field el =
     (n_width el > 0 \<and> n_height el > 0
      \<and> n_display el \<noteq> ''none''
      \<and> n_visibility el \<noteq> ''hidden''
      \<and> n_type el \<noteq> ''hidden''
      \<and> n_type el \<noteq> ''submit''
      \<and> n_type el \<noteq> ''button''
      \<and> n_type el \<noteq> ''image'')"

text \<open>
  The label: the first associated label when there is one, else the label found by the
  selector built from the id. The selector is built by pasting the id into it, and the
  query raises a SyntaxError when the result is not a selector.
\<close>

definition field_label :: "node \<Rightarrow> js_error + string" where
  "field_label el =
     (case n_labels el of
        l # ls \<Rightarrow> Inr (trim l)
      | [] \<Rightarrow>
          if n_id el \<noteq> [] then
            (case n_label_query el of
               QThrows \<Rightarrow> Inl SyntaxError
             | QNull \<Rightarrow> Inr []
             | QLabel t \<Rightarrow> Inr (trim t))
          else Inr [])"

definition describe_field :: "nat \<Rightarrow> node \<Rightarrow> string \<Rightarrow> form_field" where
  "describe_field i el label =
     \<lparr>f_element = i,
      f_tag = n_tag el,
      f_type = js_or (n_type el) ''text'',
      f_name = n_name el,
      f_id = n_id el,
      f_label = label,
      f_placeholder = n_placeholder el,
      f_required = n_required el\<rparr>"

fun findAllFields_loop :: "node list \<Rightarrow> nat list \<Rightarrow> form_field list \<Rightarrow> js_error + form_field list" where
  "findAllFields_loop nodes [] flds = Inr flds"
| "findAllFields_loop nodes (i # elements) flds =
     (let el = nodes ! i in
      if is_visible_field el then
        (case field_label el of
           Inl e \<Rightarrow> Inl e
         | Inr label \<Rightarrow> findAllFields_loop nodes elements (flds @ [describe_field i el label]))
      else findAllFields_loop nodes elements flds)"

definition findAllFields :: "page \<Rightarrow> js_error + form_field list" where
  "findAllFields p = findAllFields_loop (p_nodes p) (querySelectorAll is_form_control p) []"

section \<open>fillFormWithMemory\<close>

text \<open>
  What the pass does besides changing controls: the events it dispatches on an
  element, the alerts it shows, the questions it puts to the human and its writes to
  the storage.
\<close>

datatype alert = AutoUploadFailed string string | UploadManually string

datatype effect =
    Dispatched nat event_kind
  | Alerted alert
  | Prompted string
  | StorageSet memory

record fill_state =
  fs_nodes :: "node list"
  fs_qaMemory :: memory
  fs_storage :: storage
  fs_filledCount :: nat
  fs_askedCount :: nat
  fs_trace :: "effect list"

text \<open>
  One pass of a loop body either goes on to the next element or raises; the state is
  the one reached when it does.
\<close>

datatype 'a step = Continue 'a | Throw js_error 'a

text \<open>The value a file input reports once a file list with this first name is set.\<close>

definition fakepath :: "string \<Rightarrow> string" where
  "fakepath name = ''C:'' @ [CHR 0x5C] @ ''fakepath'' @ [CHR 0x5C] @ name"

text \<open>
  The body of a \<^verbatim>\<open>try\<close> block that attaches a stored asset: it raises, before the
  control is changed, when the host refuses; otherwise the control holds the file, a
  change event is dispatched and the count goes up. The \<^verbatim>\<open>catch\<close> shows an alert.
\<close>

definition attach_file :: "form_field \<Rightarrow> string \<Rightarrow> asset \<Rightarrow> fill_state \<Rightarrow> fill_state" where
  "attach_file fld question a st =
     (let i = f_element fld; el = fs_nodes st ! i in
      if n_rejects_files el then
        st\<lparr>fs_trace := fs_trace st @ [Alerted (AutoUploadFailed question (a_name a))]\<rparr>
      else
        st\<lparr>fs_nodes := (fs_nodes st)[i := el\<lparr>n_files := [a_name a], n_value := fakepath (a_name a)\<rparr>],
           fs_trace := fs_trace st @ [Dispatched i ChangeEvent],
           fs_filledCount := fs_filledCount st + 1\<rparr>)"

definition fill_file_field ::
  "asset option \<Rightarrow> asset option \<Rightarrow> form_field \<Rightarrow> string \<Rightarrow> fill_state \<Rightarrow> fill_state" where
  "fill_file_field resume coverLetter fld question st =
     (let isResume = (str_includes question ''resume'' \<or> str_includes question ''cv'');
          isCoverLetter = (str_includes question ''cover'' \<or> str_includes question ''letter'')
      in
        case (if isResume then resume else None) of
          Some r \<Rightarrow> attach_file fld question r st
        | None \<Rightarrow>
            (case (if isCoverLetter then coverLetter else None) of
               Some c \<Rightarrow> attach_file fld question c st
             | None \<Rightarrow>
                 if f_required fld then
                   st\<lparr>fs_trace := fs_trace st
                        @ [Alerted (UploadManually
                                     (js_or (f_label fld) (js_or (f_placeholder fld) ''File upload'')))]\<rparr>
                 else st))"

text \<open>
  \<^verbatim>\<open>field.element.value = v\<close> followed by the input and the change event.
\<close>

definition assign_and_notify :: "nat \<Rightarrow> string \<Rightarrow> fill_state \<Rightarrow> fill_state step" where
  "assign_and_notify i v st =
     (case set_value (fs_nodes st ! i) v of
        Inl e \<Rightarrow> Throw e st
      | Inr el \<Rightarrow>
          Continue (st\<lparr>fs_nodes := (fs_nodes st)[i := el],
                      fs_trace := fs_trace st @ [Dispatched i InputEvent, Dispatched i ChangeEvent]\<rparr>))"

definition count_filled :: "fill_state step \<Rightarrow> fill_state step" where
  "count_filled r =
     (case r of
        Continue st \<Rightarrow> Continue (st\<lparr>fs_filledCount := fs_filledCount st + 1\<rparr>)
      | Throw e st \<Rightarrow> Throw e st)"

text \<open>The branch \<^verbatim>\<open>if (qaMemory[question])\<close>.\<close>

definition fill_from_memory :: "form_field \<Rightarrow> jsval \<Rightarrow> fill_state \<Rightarrow> fill_state step" where
  "fill_from_memory fld answer st =
     (let i = f_element fld in
      if f_tag fld = ''select'' then
        (case selectBestOption (fs_nodes st ! i) answer of
           Inl e \<Rightarrow> Throw e st
         | Inr (matched, el, events) \<Rightarrow>
             Continue (st\<lparr>fs_nodes := (fs_nodes st)[i := el],
                         fs_trace := fs_trace st @ map (Dispatched i) events,
                         fs_filledCount := fs_filledCount st + (if matched then 1 else 0)\<rparr>))
      else count_filled (assign_and_notify i (to_string answer) st))"

definition required_prompt :: "string \<Rightarrow> string" where
  "required_prompt label = [CHR 0xE2, CHR 0x9D, CHR 0x93] @ '' Required: '' @ label"

text \<open>
  The branch \<^verbatim>\<open>else if (field.required)\<close>: the human is asked; \<open>None\<close> is a cancelled
  prompt. An answer is filled in, stored under the question and written to the storage.
\<close>

definition ask_required ::
  "(string \<Rightarrow> string option) \<Rightarrow> form_field \<Rightarrow> string \<Rightarrow> fill_state \<Rightarrow> fill_state step" where
  "ask_required prompt fld question st =
     (let i = f_element fld;
          message = required_prompt (js_or (f_label fld) (js_or (f_placeholder fld) (f_name fld)));
          st1 = st\<lparr>fs_trace := fs_trace st @ [Prompted message]\<rparr>
      in
        case prompt message of
          None \<Rightarrow> Continue st1
        | Some answer \<Rightarrow>
            if answer = [] then Continue st1
            else
              (case (if f_tag fld = ''select'' then
                       (case selectBestOption (fs_nodes st1 ! i) (JStr answer) of
                          Inl e \<Rightarrow> Throw e st1
                        | Inr (matched, el, events) \<Rightarrow>
                            Continue (st1\<lparr>fs_nodes := (fs_nodes st1)[i := el],
                                         fs_trace := fs_trace st1 @ map (Dispatched i) events\<rparr>))
                     else assign_and_notify i answer st1) of
                 Throw e st2 \<Rightarrow> Throw e st2
               | Continue st2 \<Rightarrow>
                   (let qaMemory = mem_set (fs_qaMemory st2) question answer in
                    Continue (st2\<lparr>fs_qaMemory := qaMemory,
                                 fs_storage := (fs_storage st2)\<lparr>s_qaMemory := Some qaMemory\<rparr>,
                                 fs_trace := fs_trace st2 @ [StorageSet qaMemory],
                                 fs_filledCount := fs_filledCount st2 + 1,
                                 fs_askedCount := fs_askedCount st2 + 1\<rparr>))))"

text \<open>
  The body of the loop over the fields. \<open>mem_answer m k\<close> is the value of
  \<^verbatim>\<open>qaMemory[k]\<close> when it is truthy.
\<close>

definition mem_answer :: "memory \<Rightarrow> string \<Rightarrow> jsval option" where
  "mem_answer m k =
     (case mem_get m k of
        Some v \<Rightarrow> if truthy v then Some v else None
      | None \<Rightarrow> None)"

definition fill_field ::
  "(string \<Rightarrow> string option) \<Rightarrow> asset option \<Rightarrow> asset option \<Rightarrow> form_field \<Rightarrow> fill_state
     \<Rightarrow> fill_state step" where
  "fill_field prompt resume coverLetter fld st =
     (let i = f_element fld; qaMemory = fs_qaMemory st in
      if n_value (fs_nodes st ! i) \<noteq> [] then Continue st
      else
        let question = trim (toLowerCase (js_or (f_label fld) (js_or (f_placeholder fld) (f_name fld))))
        in
          if question = [] then Continue st
          else if f_type fld = ''file'' then
            Continue (fill_file_field resume coverLetter fld question st)
          else
            (case (if (str_includes question ''resume'' \<or> str_includes question ''cv'')
                      \<and> resume \<noteq> None
                   then mem_answer qaMemory question else None) of
               Some v \<Rightarrow> count_filled (assign_and_notify i (to_string v) st)
             | None \<Rightarrow>
                 (case (if (str_includes question ''cover'' \<and> str_includes question ''letter'')
                           \<and> coverLetter \<noteq> None
                        then mem_answer qaMemory question else None) of
                    Some v \<Rightarrow> count_filled (assign_and_notify i (to_string v) st)
                  | None \<Rightarrow>
                      (case mem_answer qaMemory question of
                         Some answer \<Rightarrow> fill_from_memory fld answer st
                       | None \<Rightarrow>
                           if f_required fld then ask_required prompt fld question st
                           else Continue st))))"

fun fill_loop ::
  "(string \<Rightarrow> string option) \<Rightarrow> asset option \<Rightarrow> asset option \<Rightarrow> form_field list \<Rightarrow> fill_state
     \<Rightarrow> fill_state step" where
  "fill_loop prompt resume coverLetter [] st = Continue st"
| "fill_loop prompt resume coverLetter (fld # flds) st =
     (case fill_field prompt resume coverLetter fld st of
        Throw e st' \<Rightarrow> Throw e st'
      | Continue st' \<Rightarrow> fill_loop prompt resume coverLetter flds st')"

record fill_result =
  r_success :: bool
  r_filledCount :: nat
  r_askedCount :: nat
  r_totalFields :: nat

text \<open>
  What a call leaves behind: the structured result it resolves to, or the error its
  promise is rejected with; the document; the storage; the effects in order.
\<close>

datatype 'a completion = Returned 'a | Rejected js_error

record fill_outcome =
  o_completion :: "fill_result completion"
  o_page :: page
  o_storage :: storage
  o_trace :: "effect list"

definition initial_fill_state :: "storage \<Rightarrow> page \<Rightarrow> fill_state" where
  "initial_fill_state stg p =
     \<lparr>fs_nodes = p_nodes p,
      fs_qaMemory = stored_memory stg,
      fs_storage = stg,
      fs_filledCount = 0,
      fs_askedCount = 0,
      fs_trace = []\<rparr>"

definition fillFormWithMemory :: "(string \<Rightarrow> string option) \<Rightarrow> storage \<Rightarrow> page \<Rightarrow> fill_outcome" where
  "fillFormWithMemory prompt stg p =
     (case findAllFields p of
        Inl e \<Rightarrow> \<lparr>o_completion = Rejected e, o_page = p, o_storage = stg, o_trace = []\<rparr>
      | Inr flds \<Rightarrow>
          (case fill_loop prompt (s_resume stg) (s_coverLetter stg) flds (initial_fill_state stg p) of
             Throw e st \<Rightarrow>
               \<lparr>o_completion = Rejected e,
                o_page = p\<lparr>p_nodes := fs_nodes st\<rparr>,
                o_storage = fs_storage st,
                o_trace = fs_trace st\<rparr>
           | Continue st \<Rightarrow>
               \<lparr>o_completion =
                  Returned \<lparr>r_success = True,
                            r_filledCount = fs_filledCount st,
                            r_askedCount = fs_askedCount st,
                            r_totalFields = length flds\<rparr>,
                o_page = p\<lparr>p_nodes := fs_nodes st\<rparr>,
                o_storage = fs_storage st,
                o_trace = fs_trace st\<rparr>))"

section \<open>The host page\<close>

text \<open>
  While the engine sleeps, and when it focuses, clicks or dispatches an event, the
  page's own scripts run. The host says what each element and the body text look like
  afterwards; it rewrites attributes and leaves the set of elements as it is.
\<close>

datatype action = Sleep nat | Focus nat | Click nat | Dispatch nat event_kind

record host =
  h_node :: "action \<Rightarrow> page \<Rightarrow> nat \<Rightarrow> node"
  h_body_innerText :: "action \<Rightarrow> page \<Rightarrow> string"

definition react :: "host \<Rightarrow> action \<Rightarrow> page \<Rightarrow> page" where
  "react h a p =
     p\<lparr>p_nodes := map (h_node h a p) [0..<length (p_nodes p)],
       p_body_innerText := h_body_innerText h a p\<rparr>"

section \<open>The Naukri sidebar\<close>

record sidebar_data =
  sd_found :: bool
  sd_questions :: "string list"
  sd_inputs :: "(nat \<times> string) list"

definition is_container_candidate :: "node \<Rightarrow> bool" where
  "is_container_candidate n =
     (n_role n = ''dialog''
      \<or> str_includes (n_class n) ''drawer''
      \<or> str_includes (n_class n) ''sidebar''
      \<or> str_includes (n_class n) ''side''
      \<or> n_tag n = ''div'')"

text \<open>\<^verbatim>\<open>container.querySelectorAll\<close>: the matching elements below the container.\<close>

definition querySelectorAll_in :: "(node \<Rightarrow> bool) \<Rightarrow> page \<Rightarrow> nat \<Rightarrow> nat list" where
  "querySelectorAll_in sel p c =
     filter (\<lambda>j. j < length (p_nodes p) \<and> sel (p_nodes p ! j)) (n_descendants (p_nodes p ! c))"

definition is_sidebar_input :: "node \<Rightarrow> bool" where
  "is_sidebar_input n = ((n_tag n = ''input'' \<and> n_type n \<noteq> ''hidden'') \<or> n_tag n = ''textarea'')"

fun split_on :: "char \<Rightarrow> string \<Rightarrow> string list" where
  "split_on c [] = [[]]"
| "split_on c (x # xs) =
     (if x = c then [] # split_on c xs
      else (case split_on c xs of
              l # ls \<Rightarrow> (x # l) # ls
            | [] \<Rightarrow> [[x]]))"

definition is_question_line :: "string \<Rightarrow> bool" where
  "is_question_line line =
     (str_includes line ''?''
      \<and> length line > 10
      \<and> length line < 300
      \<and> \<not> str_includes line ''http'')"

fun collect_questions :: "string list \<Rightarrow> string list \<Rightarrow> string list" where
  "collect_questions [] questions = questions"
| "collect_questions (l # lines) questions =
     (let line = trim l in
      if is_question_line line \<and> line \<notin> set questions
      then collect_questions lines (questions @ [line])
      else collect_questions lines questions)"

definition collect_inputs :: "page \<Rightarrow> nat \<Rightarrow> (nat \<times> string) list" where
  "collect_inputs p c =
     map (\<lambda>j. (j, js_or (n_type (p_nodes p ! j)) ''text''))
       (filter (\<lambda>j. n_width (p_nodes p ! j) > 0 \<and> n_height (p_nodes p ! j) > 0
                    \<and> n_value (p_nodes p ! j) = [])
          (querySelectorAll_in is_sidebar_input p c))"

fun findNaukriSidebar_loop :: "page \<Rightarrow> nat list \<Rightarrow> sidebar_data \<Rightarrow> sidebar_data" where
  "findNaukriSidebar_loop p [] data = data"
| "findNaukriSidebar_loop p (c # containers) data =
     (let container = p_nodes p ! c in
      if n_width container > 300 \<and> n_width container < p_innerWidth p \<and> n_height container > 200
      then
        (let data' = data\<lparr>sd_questions :=
                             collect_questions (split_on (CHR 0x0A) (n_innerText container))
                               (sd_questions data),
                           sd_inputs := sd_inputs data @ collect_inputs p c\<rparr>
         in if sd_questions data' \<noteq> [] \<or> sd_inputs data' \<noteq> []
            then data'\<lparr>sd_found := True\<rparr>
            else findNaukriSidebar_loop p containers data')
      else findNaukriSidebar_loop p containers data)"

definition findNaukriSidebar :: "page \<Rightarrow> sidebar_data" where
  "findNaukriSidebar p =
     findNaukriSidebar_loop p (querySelectorAll is_container_candidate p)
       \<lparr>sd_found = False, sd_questions = [], sd_inputs = []\<rparr>"

text \<open>
  The inner loop of \<^verbatim>\<open>fillNaukriInput\<close> over the inputs of one container. The
  \<^verbatim>\<open>try\<close> block focuses and clicks the input, sleeps, assigns the answer and
  dispatches the two events; when the assignment raises, the \<^verbatim>\<open>catch\<close> logs it and
  the loop goes on with the next input.
\<close>

fun fill_inputs :: "host \<Rightarrow> jsval \<Rightarrow> nat list \<Rightarrow> page \<Rightarrow> bool \<times> page" where
  "fill_inputs h answer [] p = (False, p)"
| "fill_inputs h answer (i # inputs) p =
     (let inp = p_nodes p ! i in
      if n_width inp > 0 \<and> n_height inp > 0 \<and> n_value inp = [] then
        (let p1 = react h (Sleep 300) (react h (Click i) (react h (Focus i) p)) in
         case set_value (p_nodes p1 ! i) (to_string answer) of
           Inl e \<Rightarrow> fill_inputs h answer inputs p1
         | Inr inp' \<Rightarrow>
             (True,
              react h (Dispatch i ChangeEvent)
                (react h (Dispatch i InputEvent) (p1\<lparr>p_nodes := (p_nodes p1)[i := inp']\<rparr>))))
      else fill_inputs h answer inputs p)"

fun fillNaukriInput_loop :: "host \<Rightarrow> jsval \<Rightarrow> nat list \<Rightarrow> page \<Rightarrow> bool \<times> page" where
  "fillNaukriInput_loop h answer [] p = (False, p)"
| "fillNaukriInput_loop h answer (c # containers) p =
     (let container = p_nodes p ! c in
      if n_width container > 300 \<and> n_height container > 200 then
        (case fill_inputs h answer (querySelectorAll_in is_sidebar_input p c) p of
           (True, p') \<Rightarrow> (True, p')
         | (False, p') \<Rightarrow> fillNaukriInput_loop h answer containers p')
      else fillNaukriInput_loop h answer containers p)"

definition fillNaukriInput :: "host \<Rightarrow> jsval \<Rightarrow> page \<Rightarrow> bool \<times> page" where
  "fillNaukriInput h answer p =
     fillNaukriInput_loop h answer (querySelectorAll is_container_candidate p) p"

definition is_button :: "node \<Rightarrow> bool" where
  "is_button n = (n_tag n = ''button'')"

definition is_save_button :: "node \<Rightarrow> bool" where
  "is_save_button btn =
     (let text = toLowerCase (n_innerText btn) in
      (str_includes text ''save'' \<or> str_includes text ''submit''
       \<or> str_includes text ''next'' \<or> str_includes text ''continue'')
      \<and> n_has_offsetParent btn
      \<and> \<not> n_disabled btn)"

fun first_button :: "(node \<Rightarrow> bool) \<Rightarrow> page \<Rightarrow> nat list \<Rightarrow> nat option" where
  "first_button test p [] = None"
| "first_button test p (b # buttons) =
     (if test (p_nodes p ! b) then Some b else first_button test p buttons)"

fun clickNaukriSaveButton_loop :: "host \<Rightarrow> nat list \<Rightarrow> page \<Rightarrow> bool \<times> page" where
  "clickNaukriSaveButton_loop h [] p = (False, p)"
| "clickNaukriSaveButton_loop h (c # containers) p =
     (if n_width (p_nodes p ! c) > 300 then
        (case first_button is_save_button p (querySelectorAll_in is_button p c) of
           Some b \<Rightarrow> (True, react h (Click b) p)
         | None \<Rightarrow> clickNaukriSaveButton_loop h containers p)
      else clickNaukriSaveButton_loop h containers p)"

definition clickNaukriSaveButton :: "host \<Rightarrow> page \<Rightarrow> bool \<times> page" where
  "clickNaukriSaveButton h p =
     clickNaukriSaveButton_loop h (querySelectorAll is_container_candidate p) p"

text \<open>
  \<^verbatim>\<open>handleNaukriSidebar\<close> returns nothing; the model reports which \<^verbatim>\<open>break\<close>, or
  the loop condition, ended the loop, and the value of \<^verbatim>\<open>attempt\<close> at that point.
\<close>

datatype panel_exit =
  NoPanel | NoQuestion | NoAnswer | NoInput | NoSaveButton | MaxAttemptsReached

record panel_state =
  ps_page :: page
  ps_qaMemory :: memory
  ps_storage :: storage
  ps_prompts :: "string list"

definition naukri_prompt :: "string \<Rightarrow> string" where
  "naukri_prompt question =
     [CHR 0xE2, CHR 0x9D, CHR 0x93] @ '' Naukri Question:'' @ [CHR 0x0A, CHR 0x0A] @ question"

text \<open>
  The answer to the question: the remembered one when it is truthy, else the human's,
  which is then stored; no answer when the human gives none.
\<close>

definition resolve_answer ::
  "(string \<Rightarrow> string option) \<Rightarrow> string \<Rightarrow> panel_state \<Rightarrow> jsval option \<times> panel_state" where
  "resolve_answer prompt question st =
     (let questionLower = trim (toLowerCase question) in
      case mem_answer (ps_qaMemory st) questionLower of
        Some answer \<Rightarrow> (Some answer, st)
      | None \<Rightarrow>
          (let st1 = st\<lparr>ps_prompts := ps_prompts st @ [naukri_prompt question]\<rparr> in
           case prompt (naukri_prompt question) of
             None \<Rightarrow> (None, st1)
           | Some answer \<Rightarrow>
               if answer = [] then (None, st1)
               else
                 (let qaMemory = mem_set (ps_qaMemory st1) questionLower answer in
                  (Some (JStr answer),
                   st1\<lparr>ps_qaMemory := qaMemory,
                       ps_storage := (ps_storage st1)\<lparr>s_qaMemory := Some qaMemory\<rparr>\<rparr>))))"

text \<open>
  The body of the \<^verbatim>\<open>while\<close> loop after \<^verbatim>\<open>attempt++\<close>: \<open>Inl\<close> is a \<^verbatim>\<open>break\<close>,
  \<open>Inr\<close> the state in which the loop condition is tested again.
\<close>

definition sidebar_attempt ::
  "host \<Rightarrow> (string \<Rightarrow> string option) \<Rightarrow> panel_state \<Rightarrow> (panel_exit \<times> panel_state) + panel_state" where
  "sidebar_attempt h prompt st =
     (let st1 = st\<lparr>ps_page := react h (Sleep 1000) (ps_page st)\<rparr>;
          sidebarData = findNaukriSidebar (ps_page st1)
      in
        if \<not> sd_found sidebarData then Inl (NoPanel, st1)
        else if sd_questions sidebarData = [] \<or> sd_inputs sidebarData = [] then Inl (NoQuestion, st1)
        else
          (case resolve_answer prompt (hd (sd_questions sidebarData)) st1 of
             (None, st2) \<Rightarrow> Inl (NoAnswer, st2)
           | (Some answer, st2) \<Rightarrow>
               (case fillNaukriInput h answer (ps_page st2) of
                  (False, p2) \<Rightarrow> Inl (NoInput, st2\<lparr>ps_page := p2\<rparr>)
                | (True, p2) \<Rightarrow>
                    (case clickNaukriSaveButton h p2 of
                       (False, p3) \<Rightarrow> Inl (NoSaveButton, st2\<lparr>ps_page := p3\<rparr>)
                     | (True, p3) \<Rightarrow> Inr (st2\<lparr>ps_page := react h (Sleep 2000) p3\<rparr>)))))"

definition maxAttempts :: nat where
  "maxAttempts = 20"

function sidebar_loop ::
  "host \<Rightarrow> (string \<Rightarrow> string option) \<Rightarrow> nat \<Rightarrow> panel_state \<Rightarrow> panel_exit \<times> nat \<times> panel_state" where
  "sidebar_loop h prompt attempt st =
     (if attempt < maxAttempts then
        (case sidebar_attempt h prompt st of
           Inl (reason, st') \<Rightarrow> (reason, attempt + 1, st')
         | Inr st' \<Rightarrow> sidebar_loop h prompt (attempt + 1) st')
      else (MaxAttemptsReached, attempt, st))"
  by pat_completeness auto
termination
  by (relation "measure (\<lambda>(h, prompt, attempt, st). maxAttempts - attempt)") auto

definition handleNaukriSidebar ::
  "host \<Rightarrow> (string \<Rightarrow> string option) \<Rightarrow> storage \<Rightarrow> page \<Rightarrow> panel_exit \<times> nat \<times> panel_state" where
  "handleNaukriSidebar h prompt stg p =
     sidebar_loop h prompt 0
       \<lparr>ps_page = p, ps_qaMemory = stored_memory stg, ps_storage = stg, ps_prompts = []\<rparr>"

section \<open>submitForm\<close>

record submit_result =
  sr_success :: bool
  sr_clicked :: bool

definition is_submit_candidate :: "node \<Rightarrow> bool" where
  "is_submit_candidate n = (n_tag n = ''button'' \<or> (n_tag n = ''input'' \<and> n_type n = ''submit''))"

definition is_submit_match :: "node \<Rightarrow> bool" where
  "is_submit_match btn =
     (let text = toLowerCase (js_or (n_innerText btn) (n_value btn)) in
      (str_includes text ''submit'' \<or> str_includes text ''apply'' \<or> str_includes text ''send'')
      \<and> n_has_offsetParent btn
      \<and> \<not> n_disabled btn)"

definition has_completion_token :: "string \<Rightarrow> bool" where
  "has_completion_token body =
     (let bodyText = toLowerCase body in
      str_includes bodyText ''thank'' \<or> str_includes bodyText ''success''
      \<or> str_includes bodyText ''submitted'' \<or> str_includes bodyText ''received'')"

text \<open>
  The result, the document afterwards and what the engine did to the page, in order.
\<close>

definition submitForm :: "host \<Rightarrow> page \<Rightarrow> submit_result \<times> page \<times> action list" where
  "submitForm h p =
     (case first_button is_submit_match p (querySelectorAll is_submit_candidate p) of
        Some b \<Rightarrow>
          (let p' = react h (Sleep 3000) (react h (Click b) p) in
           (\<lparr>sr_success = has_completion_token (p_body_innerText p'), sr_clicked = True\<rparr>,
            p', [Click b, Sleep 3000]))
      | None \<Rightarrow> (\<lparr>sr_success = False, sr_clicked = False\<rparr>, p, []))"

section \<open>The popup: export, import and upload\<close>

text \<open>
  The exported file holds \<^verbatim>\<open>JSON.stringify(qaMemory)\<close> and the import reads a file
  with \<^verbatim>\<open>JSON.parse\<close>. A JSON text that denotes an object is modelled by the mapping
  it denotes; \<open>Malformed\<close> is a text that \<^verbatim>\<open>JSON.parse\<close> rejects, in which case the
  \<^verbatim>\<open>catch\<close> shows an alert and the storage stays as it is.
\<close>

datatype json_file = Malformed | JsonObject memory

definition exportMemory :: "storage \<Rightarrow> json_file" where
  "exportMemory stg = JsonObject (stored_memory stg)"

definition importMemory :: "storage \<Rightarrow> json_file \<Rightarrow> storage" where
  "importMemory stg file =
     (case file of
        Malformed \<Rightarrow> stg
      | JsonObject imported \<Rightarrow>
          (let qaMemory = stored_memory stg;
               merged = qaMemory ++ imported
           in stg\<lparr>s_qaMemory := Some merged\<rparr>))"

definition resumeKeys :: "string list" where
  "resumeKeys =
     [''resume'', ''resume *'', ''cv'', ''cv *'', ''upload resume'', ''upload cv'',
      ''attach resume'', ''attach cv'', ''resume/cv'', ''resume / cv'', ''resumecv'',
      ''resume file'', ''cv file'', ''resume (pdf)'', ''cv (pdf)'', ''resume *'',
      ''cv *'', ''attach resume *'', ''attach cv *'']"

definition coverLetterKeys :: "string list" where
  "coverLetterKeys =
     [''cover letter'', ''cover letter *'', ''coverletter'', ''upload cover letter'',
      ''attach cover letter'', ''cover letter file'', ''cover letter (pdf)'',
      ''attach cover letter *'']"

text \<open>\<^verbatim>\<open>keys.forEach(key => { qaMemory[key] = file.name; })\<close>\<close>

fun set_keys :: "string list \<Rightarrow> string \<Rightarrow> memory \<Rightarrow> memory" where
  "set_keys [] name qaMemory = qaMemory"
| "set_keys (key # keys) name qaMemory = set_keys keys name (mem_set qaMemory key name)"

text \<open>
  Each call of \<^verbatim>\<open>chrome.storage.local.set\<close> is one write; the upload handlers return
  the storage afterwards and their writes in order. \<open>None\<close> is a closed file dialog.
\<close>

datatype storage_write = SetResume asset | SetCoverLetter asset | SetQaMemory memory

definition uploadResume :: "storage \<Rightarrow> asset option \<Rightarrow> storage \<times> storage_write list" where
  "uploadResume stg file =
     (case file of
        None \<Rightarrow> (stg, [])
      | Some f \<Rightarrow>
          (let stg1 = stg\<lparr>s_resume := Some f\<rparr>;
               qaMemory = set_keys resumeKeys (a_name f) (stored_memory stg1)
           in (stg1\<lparr>s_qaMemory := Some qaMemory\<rparr>, [SetResume f, SetQaMemory qaMemory])))"

definition uploadCoverLetter :: "storage \<Rightarrow> asset option \<Rightarrow> storage \<times> storage_write list" where
  "uploadCoverLetter stg file =
     (case file of
        None \<Rightarrow> (stg, [])
      | Some f \<Rightarrow>
          (let stg1 = stg\<lparr>s_coverLetter := Some f\<rparr>;
               qaMemory = set_keys coverLetterKeys (a_name f) (stored_memory stg1)
           in (stg1\<lparr>s_qaMemory := Some qaMemory\<rparr>, [SetCoverLetter f, SetQaMemory qaMemory])))"

section \<open>Example documents\<close>

definition blank_node :: node where
  "blank_node =
     \<lparr>n_tag = ''div'', n_type = [], n_role = [], n_class = [], n_name = [], n_id = [],
      n_placeholder = [], n_required = False, n_disabled = False, n_has_offsetParent = True,
      n_width = 100, n_height = 20, n_display = ''block'', n_visibility = ''visible'',
      n_labels = [], n_label_query = QNull, n_options = [], n_rejects_files = False,
      n_innerText = [], n_descendants = [], n_value = [], n_files = []\<rparr>"

definition gap_select :: node where
  "gap_select =
     blank_node\<lparr>n_tag := ''select'', n_type := ''select-one'',
       n_options := [\<lparr>opt_text = ''Fresher'', opt_value = ''fresher''\<rparr>,
                     \<lparr>opt_text = [], opt_value = ''unspecified''\<rparr>]\<rparr>"

definition years_select :: node where
  "years_select =
     blank_node\<lparr>n_tag := ''select'', n_type := ''select-one'',
       n_options := years_options ''0'' ''1'' ''2''\<rparr>"

definition empty_storage :: storage where
  "empty_storage = \<lparr>s_qaMemory = None, s_resume = None, s_coverLetter = None\<rparr>"

definition sample_memory :: memory where
  "sample_memory = [''email'' \<mapsto> JStr ''asha@example.org'', ''phone'' \<mapsto> JStr ''9998887777'',
                    ''resume'' \<mapsto> JStr ''old.pdf'']"

definition sample_storage :: storage where
  "sample_storage = \<lparr>s_qaMemory = Some sample_memory, s_resume = None, s_coverLetter = None\<rparr>"

definition sample_import :: memory where
  "sample_import = [''phone'' \<mapsto> JStr ''1112223333'', ''city'' \<mapsto> JStr ''Pune'']"

definition sample_resume :: asset where
  "sample_resume = \<lparr>a_name = ''asha_cv.pdf'', a_data = ''data:application/pdf;base64,JVBERi0='',
                     a_type = ''application/pdf'', a_size = 5\<rparr>"

definition sample_letter :: asset where
  "sample_letter = \<lparr>a_name = ''letter.txt'', a_data = ''data:text/plain;base64,SGk='',
                     a_type = ''text/plain'', a_size = 2\<rparr>"

definition quiet_host :: host where
  "quiet_host = \<lparr>h_node = (\<lambda>a p i. p_nodes p ! i), h_body_innerText = (\<lambda>a p. p_body_innerText p)\<rparr>"

definition thanking_host :: host where
  "thanking_host =
     quiet_host\<lparr>h_body_innerText :=
       (\<lambda>a p. case a of Click b \<Rightarrow> ''Thank you for applying!'' | _ \<Rightarrow> p_body_innerText p)\<rparr>"

definition submit_page :: page where
  "submit_page =
     \<lparr>p_nodes = [blank_node\<lparr>n_tag := ''button'', n_innerText := ''Cancel''\<rparr>,
                 blank_node\<lparr>n_tag := ''button'', n_innerText := ''Submit Application''\<rparr>,
                 blank_node\<lparr>n_tag := ''input'', n_type := ''submit'', n_value := ''Send''\<rparr>],
      p_innerWidth = 1200,
      p_body_innerText = ''Review your application''\<rparr>"

definition cancel_page :: page where
  "cancel_page =
     \<lparr>p_nodes = [blank_node\<lparr>n_tag := ''button'', n_innerText := ''Cancel''\<rparr>,
                 blank_node\<lparr>n_tag := ''button'', n_innerText := ''Submit'', n_disabled := True\<rparr>],
      p_innerWidth = 1200,
      p_body_innerText = ''Review your application''\<rparr>"

text \<open>
  The controls the claim about \<^verbatim>\<open>submitForm\<close> speaks of: the submit-capable
  controls that are visible and enabled and whose text contains one of the tokens, in
  document order.
\<close>

definition submit_matches :: "page \<Rightarrow> nat list" where
  "submit_matches p =
     filter (\<lambda>b. is_submit_match (p_nodes p ! b)) (querySelectorAll is_submit_candidate p)"

definition phone_field :: node where
  "phone_field =
     blank_node\<lparr>n_tag := ''input'', n_type := ''text'', n_name := ''mobile'', n_id := ''ph'',
       n_required := True, n_labels := [''Phone''], n_width := 240, n_height := 32\<rparr>"

definition phone_page :: page where
  "phone_page = \<lparr>p_nodes = [phone_field], p_innerWidth = 1200, p_body_innerText = ''Phone''\<rparr>"

definition phone_human :: "string \<Rightarrow> string option" where
  "phone_human message = (if message = required_prompt ''Phone'' then Some ''9998887777'' else None)"

definition silent_human :: "string \<Rightarrow> string option" where
  "silent_human message = None"

definition experience_select :: node where
  "experience_select =
     blank_node\<lparr>n_tag := ''select'', n_type := ''select-one'', n_name := ''exp'',
       n_labels := [''Experience''], n_width := 240, n_height := 32,
       n_options := [\<lparr>opt_text = ''Select'', opt_value = []\<rparr>,
                     \<lparr>opt_text = ''0-1 years'', opt_value = ''0''\<rparr>,
                     \<lparr>opt_text = ''1-2 years'', opt_value = ''1''\<rparr>,
                     \<lparr>opt_text = ''2-3 years'', opt_value = ''2''\<rparr>]\<rparr>"

definition experience_page :: page where
  "experience_page =
     \<lparr>p_nodes = [experience_select, phone_field], p_innerWidth = 1200,
      p_body_innerText = ''Experience Phone''\<rparr>"

text \<open>The memory after importing the JSON text {"experience": 3, "phone": "9998887777"}.\<close>

definition numeric_storage :: storage where
  "numeric_storage =
     \<lparr>s_qaMemory = Some [''experience'' \<mapsto> JOther True ''3'', ''phone'' \<mapsto> JStr ''9998887777''],
      s_resume = None, s_coverLetter = None\<rparr>"

text \<open>A field without a label whose id holds a double quote, followed by Phone.\<close>

definition quoted_id_page :: page where
  "quoted_id_page =
     \<lparr>p_nodes = [blank_node\<lparr>n_tag := ''input'', n_type := ''text'', n_name := ''email'',
                   n_id := ''q'' @ [CHR 0x22] @ ''1'', n_label_query := QThrows,
                   n_width := 240, n_height := 32\<rparr>,
                 phone_field],
      p_innerWidth = 1200, p_body_innerText = ''Phone''\<rparr>"

definition textual_storage :: storage where
  "textual_storage =
     \<lparr>s_qaMemory = Some [''experience'' \<mapsto> JStr ''2-3'', ''phone'' \<mapsto> JStr ''9998887777''],
      s_resume = None, s_coverLetter = None\<rparr>"

section \<open>Notions used by the properties of the fill pass\<close>

text \<open>The state a step ends in, and whether it raised.\<close>

fun step_state :: "'a step \<Rightarrow> 'a" where
  "step_state (Continue st) = st"
| "step_state (Throw e st) = st"

fun is_throw :: "'a step \<Rightarrow> bool" where
  "is_throw (Continue st) = False"
| "is_throw (Throw e st) = True"

text \<open>Two element lists that differ at most at one position.\<close>

definition changes_only :: "nat \<Rightarrow> node list \<Rightarrow> node list \<Rightarrow> bool" where
  "changes_only i ns ns' = (length ns' = length ns \<and> (\<forall>j. j \<noteq> i \<longrightarrow> ns' ! j = ns ! j))"

text \<open>A page on which the phone number is already there.\<close>

definition prefilled_page :: page where
  "prefilled_page =
     \<lparr>p_nodes = [phone_field\<lparr>n_value := ''0123456789''\<rparr>, experience_select],
      p_innerWidth = 1200, p_body_innerText = ''Phone Experience''\<rparr>"

text \<open>What the loop body does to the element of its field, and whether it raises.\<close>

definition attach_node :: "asset \<Rightarrow> node \<Rightarrow> node" where
  "attach_node a el =
     (if n_rejects_files el then el
      else el\<lparr>n_files := [a_name a], n_value := fakepath (a_name a)\<rparr>)"

definition file_node :: "asset option \<Rightarrow> asset option \<Rightarrow> string \<Rightarrow> node \<Rightarrow> node" where
  "file_node resume coverLetter question el =
     (case (if str_includes question ''resume'' \<or> str_includes question ''cv'' then resume else None) of
        Some r \<Rightarrow> attach_node r el
      | None \<Rightarrow>
          (case (if str_includes question ''cover'' \<or> str_includes question ''letter''
                 then coverLetter else None) of
             Some c \<Rightarrow> attach_node c el
           | None \<Rightarrow> el))"

definition assign_node :: "string \<Rightarrow> node \<Rightarrow> node \<times> bool" where
  "assign_node v el = (case set_value el v of Inl e \<Rightarrow> (el, True) | Inr el' \<Rightarrow> (el', False))"

definition select_node :: "jsval \<Rightarrow> node \<Rightarrow> node \<times> bool" where
  "select_node answer el =
     (case selectBestOption el answer of
        Inl e \<Rightarrow> (el, True)
      | Inr (matched, el', events) \<Rightarrow> (el', False))"

definition memory_node :: "form_field \<Rightarrow> jsval \<Rightarrow> node \<Rightarrow> node \<times> bool" where
  "memory_node fld answer el =
     (if f_tag fld = ''select'' then select_node answer el
      else assign_node (to_string answer) el)"

definition ask_node :: "(string \<Rightarrow> string option) \<Rightarrow> form_field \<Rightarrow> node \<Rightarrow> node \<times> bool" where
  "ask_node prompt fld el =
     (case prompt (required_prompt (js_or (f_label fld) (js_or (f_placeholder fld) (f_name fld)))) of
        None \<Rightarrow> (el, False)
      | Some answer \<Rightarrow>
          if answer = [] then (el, False)
          else if f_tag fld = ''select'' then select_node (JStr answer) el
          else assign_node answer el)"

definition field_action ::
  "(string \<Rightarrow> string option) \<Rightarrow> asset option \<Rightarrow> asset option \<Rightarrow> memory \<Rightarrow> form_field \<Rightarrow> node
     \<Rightarrow> node \<times> bool" where
  "field_action prompt resume coverLetter qaMemory fld el =
     (let question = trim (toLowerCase (js_or (f_label fld) (js_or (f_placeholder fld) (f_name fld))))
      in
        if question = [] then (el, False)
        else if f_type fld = ''file'' then (file_node resume coverLetter question el, False)
        else
          (case (if (str_includes question ''resume'' \<or> str_includes question ''cv'')
                    \<and> resume \<noteq> None
                 then mem_answer qaMemory question else None) of
             Some v \<Rightarrow> assign_node (to_string v) el
           | None \<Rightarrow>
               (case (if (str_includes question ''cover'' \<and> str_includes question ''letter'')
                         \<and> coverLetter \<noteq> None
                      then mem_answer qaMemory question else None) of
                  Some v \<Rightarrow> assign_node (to_string v) el
                | None \<Rightarrow>
                    (case mem_answer qaMemory question of
                       Some answer \<Rightarrow> memory_node fld answer el
                     | None \<Rightarrow>
                         if f_required fld then ask_node prompt fld el
                         else (el, False)))))"

definition field_node ::
  "(string \<Rightarrow> string option) \<Rightarrow> asset option \<Rightarrow> asset option \<Rightarrow> memory \<Rightarrow> form_field \<Rightarrow> node
     \<Rightarrow> node \<times> bool" where
  "field_node prompt resume coverLetter qaMemory fld el =
     (if n_value el \<noteq> [] then (el, False)
      else field_action prompt resume coverLetter qaMemory fld el)"

text \<open>The state-passing helpers in terms of the element.\<close>

definition acts_as :: "nat \<Rightarrow> fill_state \<Rightarrow> fill_state step \<Rightarrow> node \<times> bool \<Rightarrow> bool" where
  "acts_as i st r eff =
     (fs_nodes (step_state r) = (fs_nodes st)[i := fst eff] \<and> is_throw r = snd eff)"

text \<open>The human leaves every prompt cancelled or empty.\<close>

definition gives_no_answer :: "(string \<Rightarrow> string option) \<Rightarrow> bool" where
  "gives_no_answer prompt = (\<forall>message. prompt message = None \<or> prompt message = Some [])"

text \<open>A step that leaves the memory and the storage as they are.\<close>

definition keeps_memory :: "fill_state \<Rightarrow> fill_state step \<Rightarrow> bool" where
  "keeps_memory st r =
     (fs_qaMemory (step_state r) = fs_qaMemory st \<and> fs_storage (step_state r) = fs_storage st)"

text \<open>
  The attributes of an element that the pass never writes: everything but the value
  and the file list.
\<close>

definition static :: "node \<Rightarrow> node" where
  "static el = el\<lparr>n_value := [], n_files := []\<rparr>"

text \<open>
  A page, at the start of an iteration of the panel loop, cooperates when after the
  settling pause the sidebar is found with a question and an empty input, the memory
  holds a truthy answer to the first question, an input can be filled and a save
  button can be clicked. \<open>after_attempt\<close> is the page such an iteration leaves.
\<close>

definition cooperative :: "host \<Rightarrow> memory \<Rightarrow> page \<Rightarrow> bool" where
  "cooperative h m p =
     (let p1 = react h (Sleep 1000) p;
          sidebarData = findNaukriSidebar p1
      in sd_found sidebarData
         \<and> sd_questions sidebarData \<noteq> []
         \<and> sd_inputs sidebarData \<noteq> []
         \<and> (case mem_answer m (trim (toLowerCase (hd (sd_questions sidebarData)))) of
               None \<Rightarrow> False
             | Some answer \<Rightarrow>
                 fst (fillNaukriInput h answer p1)
                 \<and> fst (clickNaukriSaveButton h (snd (fillNaukriInput h answer p1)))))"

definition after_attempt :: "host \<Rightarrow> memory \<Rightarrow> page \<Rightarrow> page" where
  "after_attempt h m p =
     (let p1 = react h (Sleep 1000) p;
          sidebarData = findNaukriSidebar p1
      in case mem_answer m (trim (toLowerCase (hd (sd_questions sidebarData)))) of
           None \<Rightarrow> p1
         | Some answer \<Rightarrow>
             react h (Sleep 2000) (snd (clickNaukriSaveButton h (snd (fillNaukriInput h answer p1)))))"

definition sidebar_page :: page where
  "sidebar_page =
     \<lparr>p_nodes =
        [blank_node\<lparr>n_tag := ''div'', n_class := ''chatbot_Drawer'', n_width := 420, n_height := 640,
           n_innerText := ''Screening questions'' @ [CHR 0x0A]
                          @ ''What is your notice period in days?'' @ [CHR 0x0A] @ ''Save'',
           n_descendants := [1, 2]\<rparr>,
         blank_node\<lparr>n_tag := ''input'', n_type := ''text'', n_width := 360, n_height := 36\<rparr>,
         blank_node\<lparr>n_tag := ''button'', n_innerText := ''Save'', n_width := 80, n_height := 32\<rparr>],
      p_innerWidth = 1280,
      p_body_innerText = ''Screening questions''\<rparr>"

text \<open>
  A host that shows the same question again: whenever the engine sleeps, the panel is
  drawn afresh and its input is empty.
\<close>

definition stuck_host :: host where
  "stuck_host =
     \<lparr>h_node = (\<lambda>a p i. case a of
                             Sleep ms \<Rightarrow> (p_nodes p ! i)\<lparr>n_value := []\<rparr>
                           | _ \<Rightarrow> p_nodes p ! i),
      h_body_innerText = (\<lambda>a p. p_body_innerText p)\<rparr>"

definition notice_storage :: storage where
  "notice_storage =
     \<lparr>s_qaMemory = Some [''what is your notice period in days?'' \<mapsto> JStr ''30''],
      s_resume = None, s_coverLetter = None\<rparr>"

section \<open>Properties of selectBestOption\<close>

lemma exact_loop_find:
  "exact_loop opts (JStr a) = Inr (find (matches_exactly a) opts)"
  by (induction opts) (simp_all add: matches_exactly_def)

lemma partial_loop_find:
  "partial_loop opts (JStr a) = Inr (find (matches_partially a) opts)"
  by (induction opts) (simp_all add: matches_partially_def)

lemma find_Some_member: "find P xs = Some x \<Longrightarrow> x \<in> set xs"
  by (induction xs) (auto split: if_splits)

lemma select_set_value_option:
  "opt \<in> set (n_options ctl) \<Longrightarrow> select_set_value ctl (opt_value opt) = ctl\<lparr>n_value := opt_value opt\<rparr>"
  by (simp add: select_set_value_def)

lemma selectBestOption_spec:
  "selectBestOption ctl (JStr a) = Inr (option_matcher_spec ctl a)"
  by (auto simp add: selectBestOption_def option_matcher_spec_def exact_loop_find
      partial_loop_find select_set_value_option dest: find_Some_member split: option.splits)

text \<open>
  C2. On a free-text answer \<open>selectBestOption\<close> is the Option Matcher of the
  specification: the first option whose lower-cased text equals the lower-cased answer
  wins; failing that, the first option whose lower-cased text contains the lower-cased
  answer or is contained in it; on a match the control's value is set to that option's
  value, one change event is dispatched and the result is true; with no match the
  result is false, the control is as it was and nothing is dispatched. For the options
  0-1 years, 1-2 years, 2-3 years: the answer 2-3 selects the third option, the answer
  1-2 years selects the second by the exact rule, and the answer 10+ matches nothing.
\<close>

theorem selectBestOption_option_matcher:
  "selectBestOption ctl (JStr a) = Inr (option_matcher_spec ctl a)
   \<and> selectBestOption (ctl\<lparr>n_options := years_options v1 v2 v3\<rparr>) (JStr ''2-3'')
       = Inr (True, ctl\<lparr>n_options := years_options v1 v2 v3, n_value := v3\<rparr>, [ChangeEvent])
   \<and> find (matches_exactly ''2-3'') (years_options v1 v2 v3) = None
   \<and> selectBestOption (ctl\<lparr>n_options := years_options v1 v2 v3\<rparr>) (JStr ''1-2 years'')
       = Inr (True, ctl\<lparr>n_options := years_options v1 v2 v3, n_value := v2\<rparr>, [ChangeEvent])
   \<and> find (matches_exactly ''1-2 years'') (years_options v1 v2 v3)
       = Some \<lparr>opt_text = ''1-2 years'', opt_value = v2\<rparr>
   \<and> selectBestOption (ctl\<lparr>n_options := years_options v1 v2 v3\<rparr>) (JStr ''10+'')
       = Inr (False, ctl\<lparr>n_options := years_options v1 v2 v3\<rparr>, [])"
proof -
  have ex1: "find (matches_exactly ''2-3'') (years_options v1 v2 v3) = None"
    unfolding years_options_def by code_simp
  have pa1: "find (matches_partially ''2-3'') (years_options v1 v2 v3)
      = Some \<lparr>opt_text = ''2-3 years'', opt_value = v3\<rparr>"
    unfolding years_options_def by code_simp
  have ex2: "find (matches_exactly ''1-2 years'') (years_options v1 v2 v3)
      = Some \<lparr>opt_text = ''1-2 years'', opt_value = v2\<rparr>"
    unfolding years_options_def by code_simp
  have ex3: "find (matches_exactly ''10+'') (years_options v1 v2 v3) = None"
    unfolding years_options_def by code_simp
  have pa3: "find (matches_partially ''10+'') (years_options v1 v2 v3) = None"
    unfolding years_options_def by code_simp
  show ?thesis
    by (simp add: selectBestOption_spec option_matcher_spec_def ex1 pa1 ex2 ex3 pa3)
qed

subsection \<open>The empty answer\<close>

lemma matches_exactly_empty: "matches_exactly [] = (\<lambda>opt. opt_text opt = [])"
  by (simp add: matches_exactly_def fun_eq_iff toLowerCase_def)

lemma matches_partially_empty: "matches_partially [] = (\<lambda>opt. True)"
  by (simp add: matches_partially_def fun_eq_iff toLowerCase_def str_includes_def)

text \<open>
  C10, as stated, fails: with the options Fresher and an option whose display text is
  empty, the empty answer matches the second option by the exact rule, and the control
  gets that option's value, not the first option's.
\<close>

theorem selectBestOption_empty_answer_counterexample:
  "selectBestOption gap_select (JStr [])
     = Inr (True, gap_select\<lparr>n_value := ''unspecified''\<rparr>, [ChangeEvent])
   \<and> opt_value (hd (n_options gap_select)) = ''fresher''
   \<and> ''unspecified'' \<noteq> ''fresher''"
  by (simp add: gap_select_def blank_node_def selectBestOption_def select_set_value_def
      toLowerCase_def)

text \<open>
  C10, amended. For every select control with at least one option the empty answer
  always reports a match: the control is set to the first option whose display text is
  empty when there is one (exact rule), and to its first option otherwise (substring
  rule), and a change event is dispatched.
\<close>

theorem selectBestOption_empty_answer:
  assumes "n_options ctl \<noteq> []"
  shows "selectBestOption ctl (JStr [])
     = Inr (True,
            ctl\<lparr>n_value := opt_value (case find (\<lambda>opt. opt_text opt = []) (n_options ctl) of
                                        Some opt \<Rightarrow> opt
                                      | None \<Rightarrow> hd (n_options ctl))\<rparr>,
            [ChangeEvent])"
proof (cases "find (\<lambda>opt. opt_text opt = []) (n_options ctl)")
  case None
  obtain opt opts where opts: "n_options ctl = opt # opts"
    using assms by (cases "n_options ctl") auto
  have "find (\<lambda>opt. True) (n_options ctl) = Some opt"
    by (simp add: opts)
  then show ?thesis
    using None opts
    by (simp add: selectBestOption_spec option_matcher_spec_def matches_exactly_empty
        matches_partially_empty del: find.simps)
next
  case (Some opt)
  then show ?thesis
    by (simp add: selectBestOption_spec option_matcher_spec_def matches_exactly_empty)
qed

theorem selectBestOption_empty_answer_witness:
  "n_options years_select \<noteq> []
   \<and> selectBestOption years_select (JStr [])
       = Inr (True, years_select\<lparr>n_value := ''0''\<rparr>, [ChangeEvent])"
  using selectBestOption_empty_answer [of years_select]
  by (simp add: years_select_def years_options_def blank_node_def)

section \<open>Properties of the popup\<close>

lemma stored_memory_import:
  "stored_memory (importMemory stg (JsonObject imported)) = stored_memory stg ++ imported"
  by (simp add: importMemory_def stored_memory_def)

text \<open>
  C6. Importing an exported mapping into a store whose memory is empty and exporting
  again gives the exported mapping back. Importing into any store is a shallow merge:
  a key of the imported mapping gets the imported value, and every key the imported
  mapping does not have keeps the value it had.
\<close>

theorem memory_round_trip_and_merge:
  "(stored_memory fresh = Map.empty \<longrightarrow>
      exportMemory (importMemory fresh (exportMemory stg)) = exportMemory stg)
   \<and> (imported k = Some v \<longrightarrow>
         stored_memory (importMemory stg (JsonObject imported)) k = Some v)
   \<and> (imported k' = None \<longrightarrow>
         stored_memory (importMemory stg (JsonObject imported)) k' = stored_memory stg k')"
  by (simp add: exportMemory_def stored_memory_import map_add_def)

theorem memory_round_trip_and_merge_witness:
  "stored_memory empty_storage = Map.empty
   \<and> exportMemory (importMemory empty_storage (exportMemory sample_storage))
       = exportMemory sample_storage
   \<and> sample_import ''phone'' = Some (JStr ''1112223333'')
   \<and> stored_memory (importMemory sample_storage (JsonObject sample_import)) ''phone''
       = Some (JStr ''1112223333'')
   \<and> sample_import ''email'' = None
   \<and> stored_memory (importMemory sample_storage (JsonObject sample_import)) ''email''
       = Some (JStr ''asha@example.org'')"
  using memory_round_trip_and_merge
    [of empty_storage sample_storage sample_import "''phone''" "JStr ''1112223333''" "''email''"]
  by (simp add: empty_storage_def sample_storage_def sample_import_def sample_memory_def
      stored_memory_def)

lemma set_keys_lookup:
  "''__proto__'' \<notin> set keys \<Longrightarrow>
   set_keys keys name m k = (if k \<in> set keys then Some (JStr name) else m k)"
  by (induction keys arbitrary: m) (auto simp: mem_set_def)

lemma resumeKeys_plain: "''__proto__'' \<notin> set resumeKeys"
  by (simp add: resumeKeys_def)

lemma coverLetterKeys_plain: "''__proto__'' \<notin> set coverLetterKeys"
  by (simp add: coverLetterKeys_def)

text \<open>
  C7. Uploading a resume sets every key of the resume key list to the file's name,
  leaves every other key of the memory with the value it had, and writes the whole
  memory to the storage in one write after the write of the asset; the same holds for
  a cover letter and the cover letter key list.
\<close>

theorem upload_fan_out:
  "(k \<in> set resumeKeys \<longrightarrow>
      stored_memory (fst (uploadResume stg (Some f))) k = Some (JStr (a_name f)))
   \<and> (k' \<notin> set resumeKeys \<longrightarrow>
      stored_memory (fst (uploadResume stg (Some f))) k' = stored_memory stg k')
   \<and> snd (uploadResume stg (Some f))
       = [SetResume f, SetQaMemory (stored_memory (fst (uploadResume stg (Some f))))]
   \<and> (c \<in> set coverLetterKeys \<longrightarrow>
      stored_memory (fst (uploadCoverLetter stg (Some f))) c = Some (JStr (a_name f)))
   \<and> (c' \<notin> set coverLetterKeys \<longrightarrow>
      stored_memory (fst (uploadCoverLetter stg (Some f))) c' = stored_memory stg c')
   \<and> snd (uploadCoverLetter stg (Some f))
       = [SetCoverLetter f, SetQaMemory (stored_memory (fst (uploadCoverLetter stg (Some f))))]"
  by (simp add: uploadResume_def uploadCoverLetter_def Let_def stored_memory_def
      set_keys_lookup resumeKeys_plain coverLetterKeys_plain)

theorem upload_fan_out_witness:
  "''attach cv *'' \<in> set resumeKeys
   \<and> stored_memory (fst (uploadResume sample_storage (Some sample_resume))) ''attach cv *''
       = Some (JStr ''asha_cv.pdf'')
   \<and> ''email'' \<notin> set resumeKeys
   \<and> stored_memory (fst (uploadResume sample_storage (Some sample_resume))) ''email''
       = Some (JStr ''asha@example.org'')
   \<and> ''coverletter'' \<in> set coverLetterKeys
   \<and> stored_memory (fst (uploadCoverLetter sample_storage (Some sample_letter))) ''coverletter''
       = Some (JStr ''letter.txt'')
   \<and> ''resume'' \<notin> set coverLetterKeys
   \<and> stored_memory (fst (uploadCoverLetter sample_storage (Some sample_letter))) ''resume''
       = Some (JStr ''old.pdf'')"
  using upload_fan_out [of "''attach cv *''" sample_storage sample_resume "''email''"]
    upload_fan_out [of _ sample_storage sample_letter _ "''coverletter''" "''resume''"]
  by (simp add: resumeKeys_def coverLetterKeys_def sample_storage_def sample_memory_def
      sample_resume_def sample_letter_def stored_memory_def)

section \<open>Properties of submitForm\<close>

lemma first_button_filter:
  "first_button test p bs = (case filter (\<lambda>b. test (p_nodes p ! b)) bs of [] \<Rightarrow> None | b # rest \<Rightarrow> Some b)"
  by (induction bs) simp_all

lemma thank_token:
  assumes "str_includes body ''Thank you for applying''"
  shows "has_completion_token body"
proof -
  have "sublist (toLowerCase ''Thank you for applying'') (toLowerCase body)"
    using assms unfolding str_includes_def toLowerCase_def by (rule map_mono_sublist)
  moreover have "sublist ''thank'' (toLowerCase ''Thank you for applying'')"
    by code_simp
  ultimately have "sublist ''thank'' (toLowerCase body)"
    by (rule sublist_order.order.trans[rotated])
  then show ?thesis
    by (simp add: has_completion_token_def str_includes_def)
qed

text \<open>
  C9. When a visible, enabled submit-capable control whose text contains submit, apply
  or send exists, \<open>submitForm\<close> clicks the first of them, sleeps for 3000 ms and
  returns clicked true, and success true exactly when the body text of the page then
  contains thank, success, submitted or received in any letter case; a body text that
  contains Thank you for applying gives success true and clicked true. When there is no
  such control it returns success false and clicked false, touches nothing and does
  not raise.
\<close>

theorem submitForm_outcome:
  "(submit_matches p = b # rest \<longrightarrow>
      submitForm h p =
        (\<lparr>sr_success = has_completion_token
                          (p_body_innerText (react h (Sleep 3000) (react h (Click b) p))),
          sr_clicked = True\<rparr>,
         react h (Sleep 3000) (react h (Click b) p),
         [Click b, Sleep 3000]))
   \<and> (submit_matches p = b # rest
        \<and> str_includes (p_body_innerText (react h (Sleep 3000) (react h (Click b) p)))
             ''Thank you for applying'' \<longrightarrow>
      fst (submitForm h p) = \<lparr>sr_success = True, sr_clicked = True\<rparr>)
   \<and> (submit_matches p = [] \<longrightarrow>
      submitForm h p = (\<lparr>sr_success = False, sr_clicked = False\<rparr>, p, []))"
  by (auto simp add: submitForm_def submit_matches_def first_button_filter Let_def thank_token)

lemma submit_page_matches: "submit_matches submit_page = [1, 2]"
  unfolding submit_matches_def querySelectorAll_def submit_page_def blank_node_def
  by code_simp

lemma cancel_page_matches: "submit_matches cancel_page = []"
  unfolding submit_matches_def querySelectorAll_def cancel_page_def blank_node_def
  by code_simp

lemma thanking_body:
  "p_body_innerText (react thanking_host (Sleep n) (react thanking_host (Click b) p))
     = ''Thank you for applying!''"
  by (simp add: react_def thanking_host_def quiet_host_def)

theorem submitForm_outcome_witness:
  "submit_matches submit_page = [1, 2]
   \<and> str_includes ''Thank you for applying!'' ''Thank you for applying''
   \<and> fst (submitForm thanking_host submit_page) = \<lparr>sr_success = True, sr_clicked = True\<rparr>
   \<and> snd (snd (submitForm thanking_host submit_page)) = [Click 1, Sleep 3000]
   \<and> submit_matches cancel_page = []
   \<and> submitForm thanking_host cancel_page
       = (\<lparr>sr_success = False, sr_clicked = False\<rparr>, cancel_page, [])"
proof -
  have inc: "str_includes ''Thank you for applying!'' ''Thank you for applying''"
    by code_simp
  have tok: "has_completion_token ''Thank you for applying!''"
    by code_simp
  show ?thesis
    using submitForm_outcome [of submit_page 1 "[2]" thanking_host]
      submitForm_outcome [of cancel_page 0 "[]" thanking_host]
    by (simp add: submit_page_matches cancel_page_matches thanking_body inc tok)
qed

section \<open>Properties of fillFormWithMemory\<close>

subsection \<open>One required field\<close>

lemma phone_strings:
  "trim ''Phone'' = ''Phone''"
  "trim (toLowerCase ''Phone'') = ''phone''"
  "\<not> str_includes ''phone'' ''resume''"
  "\<not> str_includes ''phone'' ''cv''"
  "\<not> str_includes ''phone'' ''cover''"
  "map_of object_prototype ''phone'' = None"
  "''phone'' \<noteq> ''__proto__''"
  by code_simp+

lemma single_query:
  "p_nodes p = [el] \<Longrightarrow> sel el \<Longrightarrow> querySelectorAll sel p = [0]"
  by (simp add: querySelectorAll_def)

lemma phone_fields:
  assumes "p_nodes p = [el]" "is_form_control el" "is_visible_field el" "n_labels el = [''Phone'']"
  shows "findAllFields p = Inr [describe_field 0 el ''Phone'']"
  using assms by (simp add: findAllFields_def single_query field_label_def phone_strings)

lemma phone_ask:
  assumes "fs_nodes st = [el]" "n_tag el = ''input''" "n_type el = ''text''" "n_value el = []"
    "n_required el" "fs_qaMemory st = Map.empty"
  shows "fill_field prompt r c (describe_field 0 el ''Phone'') st
         = ask_required prompt (describe_field 0 el ''Phone'') ''phone'' st"
  using assms
  by (simp add: fill_field_def describe_field_def js_or_def phone_strings mem_answer_def
      mem_get_def)

lemma phone_answered:
  assumes "fs_nodes st = [el]" "n_tag el = ''input''" "n_type el = ''text''" "n_value el = []"
    "n_required el" "fs_qaMemory st = Map.empty"
    "prompt (required_prompt ''Phone'') = Some a" "a \<noteq> []"
  shows "\<exists>st'. fill_loop prompt r c [describe_field 0 el ''Phone''] st = Continue st'
           \<and> fs_nodes st' = [el\<lparr>n_value := a\<rparr>]
           \<and> fs_qaMemory st' = [''phone'' \<mapsto> JStr a]
           \<and> fs_storage st' = (fs_storage st)\<lparr>s_qaMemory := Some [''phone'' \<mapsto> JStr a]\<rparr>
           \<and> fs_filledCount st' = fs_filledCount st + 1
           \<and> fs_askedCount st' = fs_askedCount st + 1"
proof -
  have "fill_field prompt r c (describe_field 0 el ''Phone'') st
         = ask_required prompt (describe_field 0 el ''Phone'') ''phone'' st"
    using assms by (intro phone_ask)
  then show ?thesis
    using assms
    by (simp add: ask_required_def Let_def describe_field_def js_or_def
        assign_and_notify_def set_value_def mem_set_def phone_strings)
qed

lemma phone_declined:
  assumes "fs_nodes st = [el]" "n_tag el = ''input''" "n_type el = ''text''" "n_value el = []"
    "n_required el" "fs_qaMemory st = Map.empty"
    "prompt (required_prompt ''Phone'') = None \<or> prompt (required_prompt ''Phone'') = Some []"
  shows "\<exists>st'. fill_loop prompt r c [describe_field 0 el ''Phone''] st = Continue st'
           \<and> fs_nodes st' = fs_nodes st
           \<and> fs_qaMemory st' = fs_qaMemory st
           \<and> fs_storage st' = fs_storage st
           \<and> fs_filledCount st' = fs_filledCount st
           \<and> fs_askedCount st' = fs_askedCount st"
proof -
  have "fill_field prompt r c (describe_field 0 el ''Phone'') st
         = ask_required prompt (describe_field 0 el ''Phone'') ''phone'' st"
    using assms by (intro phone_ask)
  then show ?thesis
    using assms
    by (auto simp add: ask_required_def Let_def describe_field_def js_or_def)
qed

text \<open>
  C4. The memory is empty and the page is one required, visible text input labelled
  Phone with no value. When the human answers the prompt with 9998887777, the pass
  returns success with one field filled, one asked and one in total, the field holds
  9998887777 and the stored memory maps phone to 9998887777 and holds nothing else.
  When the prompt is cancelled or left empty, the pass still returns success, with
  nothing filled and nothing asked, and the page and the storage are as they were.
\<close>

theorem fillForm_required_phone:
  assumes "p_nodes p = [el]"
    and "n_tag el = ''input''" and "n_type el = ''text''" and "is_visible_field el"
    and "n_labels el = [''Phone'']" and "n_required el" and "n_value el = []"
    and "stored_memory stg = Map.empty"
  shows "(prompt (required_prompt ''Phone'') = Some ''9998887777'' \<longrightarrow>
            o_completion (fillFormWithMemory prompt stg p)
              = Returned \<lparr>r_success = True, r_filledCount = 1, r_askedCount = 1, r_totalFields = 1\<rparr>
            \<and> p_nodes (o_page (fillFormWithMemory prompt stg p)) = [el\<lparr>n_value := ''9998887777''\<rparr>]
            \<and> stored_memory (o_storage (fillFormWithMemory prompt stg p))
                = [''phone'' \<mapsto> JStr ''9998887777''])
       \<and> (prompt (required_prompt ''Phone'') = None \<or> prompt (required_prompt ''Phone'') = Some [] \<longrightarrow>
            o_completion (fillFormWithMemory prompt stg p)
              = Returned \<lparr>r_success = True, r_filledCount = 0, r_askedCount = 0, r_totalFields = 1\<rparr>
            \<and> o_page (fillFormWithMemory prompt stg p) = p
            \<and> o_storage (fillFormWithMemory prompt stg p) = stg)"
proof -
  have ctl: "is_form_control el"
    using assms(2) by (simp add: is_form_control_def)
  have flds: "findAllFields p = Inr [describe_field 0 el ''Phone'']"
    using assms ctl by (simp add: phone_fields)
  let ?st = "initial_fill_state stg p"
  have init: "fs_nodes ?st = [el]" "fs_qaMemory ?st = Map.empty" "fs_storage ?st = stg"
    "fs_filledCount ?st = 0" "fs_askedCount ?st = 0"
    using assms by (simp_all add: initial_fill_state_def)
  have answered: ?thesis if ans: "prompt (required_prompt ''Phone'') = Some ''9998887777''"
  proof -
    obtain st' where "fill_loop prompt (s_resume stg) (s_coverLetter stg)
          [describe_field 0 el ''Phone''] ?st = Continue st'"
        "fs_nodes st' = [el\<lparr>n_value := ''9998887777''\<rparr>]"
        "fs_storage st' = stg\<lparr>s_qaMemory := Some [''phone'' \<mapsto> JStr ''9998887777'']\<rparr>"
        "fs_filledCount st' = 1" "fs_askedCount st' = 1"
      using phone_answered [where st = "?st" and el = el and prompt = prompt
            and a = "''9998887777''" and r = "s_resume stg" and c = "s_coverLetter stg"]
        init assms ans by auto
    then show ?thesis
      using ans by (simp add: fillFormWithMemory_def flds stored_memory_def)
  qed
  have declined: ?thesis
    if ans: "prompt (required_prompt ''Phone'') = None \<or> prompt (required_prompt ''Phone'') = Some []"
  proof -
    obtain st' where "fill_loop prompt (s_resume stg) (s_coverLetter stg)
          [describe_field 0 el ''Phone''] ?st = Continue st'"
        "fs_nodes st' = [el]" "fs_storage st' = stg"
        "fs_filledCount st' = 0" "fs_askedCount st' = 0"
      using phone_declined [where st = "?st" and el = el and prompt = prompt
            and r = "s_resume stg" and c = "s_coverLetter stg"]
        init assms ans by auto
    then show ?thesis
      using ans assms(1) by (auto simp add: fillFormWithMemory_def flds)
  qed
  show ?thesis
    using answered declined by blast
qed

theorem fillForm_required_phone_witness:
  "p_nodes phone_page = [phone_field]
   \<and> n_tag phone_field = ''input'' \<and> n_type phone_field = ''text'' \<and> is_visible_field phone_field
   \<and> n_labels phone_field = [''Phone''] \<and> n_required phone_field \<and> n_value phone_field = []
   \<and> stored_memory empty_storage = Map.empty
   \<and> phone_human (required_prompt ''Phone'') = Some ''9998887777''
   \<and> o_completion (fillFormWithMemory phone_human empty_storage phone_page)
       = Returned \<lparr>r_success = True, r_filledCount = 1, r_askedCount = 1, r_totalFields = 1\<rparr>
   \<and> map n_value (p_nodes (o_page (fillFormWithMemory phone_human empty_storage phone_page)))
       = [''9998887777'']
   \<and> stored_memory (o_storage (fillFormWithMemory phone_human empty_storage phone_page)) ''phone''
       = Some (JStr ''9998887777'')
   \<and> silent_human (required_prompt ''Phone'') = None
   \<and> o_completion (fillFormWithMemory silent_human empty_storage phone_page)
       = Returned \<lparr>r_success = True, r_filledCount = 0, r_askedCount = 0, r_totalFields = 1\<rparr>
   \<and> o_page (fillFormWithMemory silent_human empty_storage phone_page) = phone_page
   \<and> o_storage (fillFormWithMemory silent_human empty_storage phone_page) = empty_storage"
proof -
  have h: "p_nodes phone_page = [phone_field]" "n_tag phone_field = ''input''"
    "n_type phone_field = ''text''" "is_visible_field phone_field"
    "n_labels phone_field = [''Phone'']" "n_required phone_field" "n_value phone_field = []"
    "stored_memory empty_storage = Map.empty"
    by (simp_all add: phone_page_def phone_field_def blank_node_def is_visible_field_def
        stored_memory_def empty_storage_def)
  have a: "phone_human (required_prompt ''Phone'') = Some ''9998887777''"
    by (simp add: phone_human_def)
  have s: "silent_human (required_prompt ''Phone'') = None"
    by (simp add: silent_human_def)
  show ?thesis
    using fillForm_required_phone [OF h, of phone_human] fillForm_required_phone [OF h, of silent_human]
    by (simp add: h a s)
qed

subsection \<open>An answer that is not a string\<close>

text \<open>
  C5 fails on the code. The memory holds the number 3 for experience (as after
  importing the JSON text {"experience": 3, "phone": "9998887777"}) and the page has the
  select Experience followed by the text input Phone. \<open>selectBestOption\<close> calls
  \<^verbatim>\<open>answer.toLowerCase()\<close> on the number; the TypeError is not caught anywhere in
  \<open>fillFormWithMemory\<close>, so the promise is rejected, no structured result is produced
  and Phone, whose answer is in the memory, is never reached. With the answer stored
  as the string 2-3 both fields are filled. In the same way a field without a label
  whose id holds a double quote makes the label query of \<open>findAllFields\<close> raise a
  SyntaxError, and the pass is rejected before any field is filled.
\<close>

theorem fillForm_rejects_on_numeric_answer:
  "o_completion (fillFormWithMemory silent_human numeric_storage experience_page) = Rejected TypeError
   \<and> map n_value (p_nodes (o_page (fillFormWithMemory silent_human numeric_storage experience_page)))
       = [[], []]
   \<and> o_completion (fillFormWithMemory silent_human textual_storage experience_page)
       = Returned \<lparr>r_success = True, r_filledCount = 2, r_askedCount = 0, r_totalFields = 2\<rparr>
   \<and> map n_value (p_nodes (o_page (fillFormWithMemory silent_human textual_storage experience_page)))
       = [''2'', ''9998887777'']
   \<and> o_completion (fillFormWithMemory silent_human textual_storage quoted_id_page)
       = Rejected SyntaxError
   \<and> map n_value (p_nodes (o_page (fillFormWithMemory silent_human textual_storage quoted_id_page)))
       = [[], []]"
  by code_simp

subsection \<open>No overwrite\<close>

lemma changes_only_refl [simp]: "changes_only i ns ns"
  by (simp add: changes_only_def)

lemma changes_only_update [simp]: "changes_only i ns (ns[i := x])"
  by (simp add: changes_only_def)

lemma attach_file_local: "changes_only (f_element fld) (fs_nodes st) (fs_nodes (attach_file fld q a st))"
  by (simp add: attach_file_def Let_def)

lemma fill_file_field_local:
  "changes_only (f_element fld) (fs_nodes st) (fs_nodes (fill_file_field r c fld q st))"
  by (simp add: fill_file_field_def Let_def attach_file_local split: option.splits)

lemma assign_and_notify_local:
  "changes_only i (fs_nodes st) (fs_nodes (step_state (assign_and_notify i v st)))"
  by (simp add: assign_and_notify_def split: sum.splits)

lemma count_filled_nodes [simp]:
  "fs_nodes (step_state (count_filled r)) = fs_nodes (step_state r)"
  by (cases r) (simp_all add: count_filled_def)

lemma fill_from_memory_local:
  "changes_only (f_element fld) (fs_nodes st) (fs_nodes (step_state (fill_from_memory fld a st)))"
  by (simp add: fill_from_memory_def Let_def assign_and_notify_local split: sum.splits prod.splits)

lemma ask_required_local:
  "changes_only (f_element fld) (fs_nodes st) (fs_nodes (step_state (ask_required prompt fld q st)))"
  by (auto simp add: ask_required_def Let_def assign_and_notify_def
      split: option.splits sum.splits prod.splits step.splits)

lemma fill_field_local:
  "changes_only (f_element fld) (fs_nodes st) (fs_nodes (step_state (fill_field prompt r c fld st)))"
  by (simp add: fill_field_def Let_def fill_file_field_local assign_and_notify_local
      fill_from_memory_local ask_required_local split: option.splits)

lemma fill_field_skips:
  "n_value (fs_nodes st ! f_element fld) \<noteq> [] \<Longrightarrow> fill_field prompt r c fld st = Continue st"
  by (simp add: fill_field_def)

lemma fill_field_keeps:
  assumes "n_value (fs_nodes st ! j) \<noteq> []"
  shows "fs_nodes (step_state (fill_field prompt r c fld st)) ! j = fs_nodes st ! j"
proof (cases "j = f_element fld")
  case True
  then show ?thesis using assms by (simp add: fill_field_skips)
next
  case False
  then show ?thesis
    using fill_field_local [of fld st prompt r c] by (simp add: changes_only_def)
qed

lemma fill_loop_keeps:
  assumes "n_value (fs_nodes st ! j) \<noteq> []"
  shows "fs_nodes (step_state (fill_loop prompt r c flds st)) ! j = fs_nodes st ! j"
  using assms
proof (induction flds arbitrary: st)
  case Nil
  then show ?case by simp
next
  case (Cons fld flds)
  show ?case
  proof (cases "fill_field prompt r c fld st")
    case (Continue st')
    have same: "fs_nodes st' ! j = fs_nodes st ! j"
      using fill_field_keeps [OF Cons.prems, of prompt r c fld] Continue by simp
    then have "n_value (fs_nodes st' ! j) \<noteq> []"
      using Cons.prems by simp
    then show ?thesis
      using Cons.IH [of st'] Continue same by simp
  next
    case (Throw e st')
    then show ?thesis
      using fill_field_keeps [OF Cons.prems, of prompt r c fld] by simp
  qed
qed

text \<open>
  C3. An element whose value is not empty when the pass begins is the same element,
  with the same value and the same files, after every number of iterations of the loop
  over the discovered fields and when the pass is over, whether the pass returns or
  raises.
\<close>

theorem no_overwrite:
  assumes "j < length (p_nodes p)" and "n_value (p_nodes p ! j) \<noteq> []"
  shows "p_nodes (o_page (fillFormWithMemory prompt stg p)) ! j = p_nodes p ! j
    \<and> (findAllFields p = Inr flds \<longrightarrow>
         fs_nodes (step_state (fill_loop prompt (s_resume stg) (s_coverLetter stg) (take n flds)
                     (initial_fill_state stg p))) ! j = p_nodes p ! j)"
proof -
  have init: "n_value (fs_nodes (initial_fill_state stg p) ! j) \<noteq> []"
    using assms by (simp add: initial_fill_state_def)
  have loop: "fs_nodes (step_state (fill_loop prompt (s_resume stg) (s_coverLetter stg) fs
                     (initial_fill_state stg p))) ! j = p_nodes p ! j" for fs
    using fill_loop_keeps [OF init, of prompt "s_resume stg" "s_coverLetter stg" fs]
    by (simp add: initial_fill_state_def)
  have final: "p_nodes (o_page (fillFormWithMemory prompt stg p)) ! j = p_nodes p ! j"
  proof (cases "findAllFields p")
    case (Inl e)
    then show ?thesis by (simp add: fillFormWithMemory_def)
  next
    case (Inr fs)
    then show ?thesis
      using loop [of fs]
      by (cases "fill_loop prompt (s_resume stg) (s_coverLetter stg) fs (initial_fill_state stg p)")
        (simp_all add: fillFormWithMemory_def)
  qed
  show ?thesis
    using final loop by simp
qed


theorem no_overwrite_witness:
  "0 < length (p_nodes prefilled_page)
   \<and> n_value (p_nodes prefilled_page ! 0) \<noteq> []
   \<and> n_value (p_nodes (o_page (fillFormWithMemory silent_human textual_storage prefilled_page)) ! 0)
       = ''0123456789''"
  using no_overwrite [of 0 prefilled_page silent_human textual_storage]
  by (simp add: prefilled_page_def phone_field_def blank_node_def)

subsection \<open>The loop body seen from its element\<close>

lemma acts_as_id: "acts_as i st (Continue st) (fs_nodes st ! i, False)"
  by (simp add: acts_as_def)

lemma attach_file_acts:
  "fs_nodes (attach_file fld q a st) = (fs_nodes st)[f_element fld := attach_node a (fs_nodes st ! f_element fld)]"
  by (simp add: attach_file_def attach_node_def Let_def)

lemma fill_file_field_acts:
  "fs_nodes (fill_file_field r c fld q st)
     = (fs_nodes st)[f_element fld := file_node r c q (fs_nodes st ! f_element fld)]"
  by (simp add: fill_file_field_def file_node_def Let_def attach_file_acts split: option.splits)

lemma assign_and_notify_acts:
  "acts_as i st (assign_and_notify i v st) (assign_node v (fs_nodes st ! i))"
  by (simp add: acts_as_def assign_and_notify_def assign_node_def split: sum.splits)

lemma count_filled_acts:
  "acts_as i st r eff \<Longrightarrow> acts_as i st (count_filled r) eff"
  by (cases r) (simp_all add: acts_as_def count_filled_def)

lemma select_acts:
  "acts_as i st
     (case selectBestOption (fs_nodes st ! i) a of
        Inl e \<Rightarrow> Throw e st
      | Inr (matched, el, events) \<Rightarrow>
          Continue (st\<lparr>fs_nodes := (fs_nodes st)[i := el],
                      fs_trace := fs_trace st @ map (Dispatched i) events,
                      fs_filledCount := fs_filledCount st + (if matched then 1 else 0)\<rparr>))
     (select_node a (fs_nodes st ! i))"
  by (simp add: acts_as_def select_node_def split: sum.splits prod.splits)

lemma fill_from_memory_acts:
  "acts_as (f_element fld) st (fill_from_memory fld a st) (memory_node fld a (fs_nodes st ! f_element fld))"
  by (simp add: fill_from_memory_def memory_node_def Let_def select_acts
      count_filled_acts assign_and_notify_acts)

lemma acts_as_trace:
  "acts_as i (st\<lparr>fs_trace := t\<rparr>) r eff \<Longrightarrow> acts_as i st r eff"
  by (simp add: acts_as_def)

lemma ask_select_acts:
  "acts_as i st
     (case selectBestOption (fs_nodes st ! i) a of
        Inl e \<Rightarrow> Throw e st
      | Inr (matched, el, events) \<Rightarrow>
          Continue (st\<lparr>fs_nodes := (fs_nodes st)[i := el],
                      fs_trace := fs_trace st @ map (Dispatched i) events\<rparr>))
     (select_node a (fs_nodes st ! i))"
  by (simp add: acts_as_def select_node_def split: sum.splits prod.splits)

lemma store_answer_acts:
  "acts_as i st r eff \<Longrightarrow>
   acts_as i st
     (case r of
        Throw e st2 \<Rightarrow> Throw e st2
      | Continue st2 \<Rightarrow>
          Continue (st2\<lparr>fs_qaMemory := m st2, fs_storage := s st2, fs_trace := t st2,
                       fs_filledCount := a st2, fs_askedCount := b st2\<rparr>))
     eff"
  by (cases r) (simp_all add: acts_as_def)

lemma ask_required_acts:
  "acts_as (f_element fld) st (ask_required prompt fld q st) (ask_node prompt fld (fs_nodes st ! f_element fld))"
proof -
  let ?i = "f_element fld"
  let ?msg = "required_prompt (js_or (f_label fld) (js_or (f_placeholder fld) (f_name fld)))"
  let ?st1 = "st\<lparr>fs_trace := fs_trace st @ [Prompted ?msg]\<rparr>"
  show ?thesis
  proof (cases "prompt ?msg")
    case None
    then show ?thesis
      by (simp add: ask_required_def ask_node_def Let_def acts_as_def)
  next
    case (Some answer)
    show ?thesis
    proof (cases "answer = []")
      case True
      then show ?thesis
        using Some by (simp add: ask_required_def ask_node_def Let_def acts_as_def)
    next
      case False
      have inner: "acts_as ?i ?st1
          (if f_tag fld = ''select'' then
             (case selectBestOption (fs_nodes ?st1 ! ?i) (JStr answer) of
                Inl e \<Rightarrow> Throw e ?st1
              | Inr (matched, el, events) \<Rightarrow>
                  Continue (?st1\<lparr>fs_nodes := (fs_nodes ?st1)[?i := el],
                               fs_trace := fs_trace ?st1 @ map (Dispatched ?i) events\<rparr>))
           else assign_and_notify ?i answer ?st1)
          (ask_node prompt fld (fs_nodes ?st1 ! ?i))"
        using Some False ask_select_acts [of ?i ?st1 "JStr answer"]
          assign_and_notify_acts [of ?i ?st1 answer]
        by (simp add: ask_node_def)
      have "acts_as ?i ?st1 (ask_required prompt fld q st) (ask_node prompt fld (fs_nodes ?st1 ! ?i))"
        unfolding ask_required_def Let_def
        using Some False store_answer_acts [OF inner] by simp
      then show ?thesis
        by (simp add: acts_as_def)
    qed
  qed
qed

lemma fill_field_acts:
  "acts_as (f_element fld) st (fill_field prompt r c fld st)
     (field_node prompt r c (fs_qaMemory st) fld (fs_nodes st ! f_element fld))"
  unfolding fill_field_def field_node_def field_action_def Let_def
  by (simp add: acts_as_id count_filled_acts assign_and_notify_acts fill_from_memory_acts
      ask_required_acts split: option.splits)
    (simp add: acts_as_def fill_file_field_acts)

subsection \<open>Running the body again on its own result\<close>

lemma assign_node_again: "assign_node v (fst (assign_node v el)) = assign_node v el"
  by (simp add: assign_node_def set_value_def select_set_value_def)

lemma select_set_value_again:
  "select_set_value (select_set_value el v) v = select_set_value el v"
  by (simp add: select_set_value_def)

lemma select_set_value_options [simp]: "n_options (select_set_value el v) = n_options el"
  by (simp add: select_set_value_def)

lemma select_node_unfold:
  "select_node a el =
     (case exact_loop (n_options el) a of
        Inl e \<Rightarrow> (el, True)
      | Inr (Some opt) \<Rightarrow> (select_set_value el (opt_value opt), False)
      | Inr None \<Rightarrow>
          (case partial_loop (n_options el) a of
             Inl e \<Rightarrow> (el, True)
           | Inr (Some opt) \<Rightarrow> (select_set_value el (opt_value opt), False)
           | Inr None \<Rightarrow> (el, False)))"
proof (cases "exact_loop (n_options el) a")
  case (Inl e)
  then show ?thesis by (simp add: select_node_def selectBestOption_def)
next
  case exact: (Inr found)
  show ?thesis
  proof (cases found)
    case (Some opt)
    then show ?thesis using exact by (simp add: select_node_def selectBestOption_def)
  next
    case None
    show ?thesis
    proof (cases "partial_loop (n_options el) a")
      case (Inl e)
      then show ?thesis using exact None by (simp add: select_node_def selectBestOption_def)
    next
      case part: (Inr found')
      then show ?thesis
        using exact None by (cases found') (simp_all add: select_node_def selectBestOption_def)
    qed
  qed
qed

lemma select_node_again: "select_node a (fst (select_node a el)) = select_node a el"
proof (cases "exact_loop (n_options el) a")
  case (Inl e)
  then show ?thesis by (simp add: select_node_unfold)
next
  case exact: (Inr found)
  show ?thesis
  proof (cases found)
    case (Some opt)
    then show ?thesis using exact by (simp add: select_node_unfold select_set_value_again)
  next
    case None
    show ?thesis
    proof (cases "partial_loop (n_options el) a")
      case (Inl e)
      then show ?thesis using exact None by (simp add: select_node_unfold)
    next
      case part: (Inr found')
      then show ?thesis
        using exact None
        by (cases found') (simp_all add: select_node_unfold select_set_value_again)
    qed
  qed
qed

lemma memory_node_again: "memory_node fld a (fst (memory_node fld a el)) = memory_node fld a el"
  by (simp add: memory_node_def select_node_again assign_node_again)

lemma ask_node_silent:
  assumes "gives_no_answer prompt"
  shows "ask_node prompt fld el = (el, False)"
proof -
  let ?msg = "required_prompt (js_or (f_label fld) (js_or (f_placeholder fld) (f_name fld)))"
  have "prompt ?msg = None \<or> prompt ?msg = Some []"
    using assms unfolding gives_no_answer_def by blast
  then show ?thesis
    by (auto simp add: ask_node_def)
qed

lemma attach_node_cases: "n_value (attach_node a el) \<noteq> [] \<or> attach_node a el = el"
  by (simp add: attach_node_def fakepath_def)

lemma file_node_cases: "n_value (file_node r c q el) \<noteq> [] \<or> file_node r c q el = el"
  using attach_node_cases by (simp add: file_node_def split: option.splits)

lemma attach_node_again: "attach_node a (attach_node a el) = attach_node a el"
  by (simp add: attach_node_def)

lemma file_node_again: "file_node r c q (file_node r c q el) = file_node r c q el"
  by (simp add: file_node_def attach_node_again split: option.splits)

lemma assign_node_throw: "snd (assign_node v el) \<Longrightarrow> fst (assign_node v el) = el"
  by (simp add: assign_node_def split: sum.splits)

lemma select_node_throw: "snd (select_node a el) \<Longrightarrow> fst (select_node a el) = el"
  by (simp add: select_node_def split: sum.splits prod.splits)

lemma memory_node_throw: "snd (memory_node fld a el) \<Longrightarrow> fst (memory_node fld a el) = el"
  by (cases "f_tag fld = ''select''") (simp_all add: memory_node_def assign_node_throw select_node_throw)

text \<open>
  The body, apart from its first test, applies to the element one action that the
  element itself does not select.
\<close>

lemma field_action_cases:
  assumes "gives_no_answer prompt"
  shows "field_action prompt r c m fld = (\<lambda>el. (el, False))
       \<or> (\<exists>q. field_action prompt r c m fld = (\<lambda>el. (file_node r c q el, False)))
       \<or> (\<exists>v. field_action prompt r c m fld = assign_node v)
       \<or> (\<exists>a. field_action prompt r c m fld = memory_node fld a)"
proof -
  let ?q = "trim (toLowerCase (js_or (f_label fld) (js_or (f_placeholder fld) (f_name fld))))"
  let ?A = "if (str_includes ?q ''resume'' \<or> str_includes ?q ''cv'') \<and> r \<noteq> None
            then mem_answer m ?q else None"
  let ?B = "if (str_includes ?q ''cover'' \<and> str_includes ?q ''letter'') \<and> c \<noteq> None
            then mem_answer m ?q else None"
  have unfold: "field_action prompt r c m fld =
      (\<lambda>el. if ?q = [] then (el, False)
            else if f_type fld = ''file'' then (file_node r c ?q el, False)
            else (case ?A of
                    Some v \<Rightarrow> assign_node (to_string v) el
                  | None \<Rightarrow>
                      (case ?B of
                         Some v \<Rightarrow> assign_node (to_string v) el
                       | None \<Rightarrow>
                           (case mem_answer m ?q of
                              Some answer \<Rightarrow> memory_node fld answer el
                            | None \<Rightarrow> (el, False)))))"
    by (rule ext) (simp add: field_action_def Let_def ask_node_silent [OF assms] cong: option.case_cong if_cong)
  show ?thesis
  proof (cases "?q = []")
    case True
    then show ?thesis by (simp add: unfold)
  next
    case q: False
    show ?thesis
    proof (cases "f_type fld = ''file''")
      case True
      then show ?thesis using q unfolding unfold by auto
    next
      case nofile: False
      show ?thesis
      proof (cases ?A)
        case (Some v)
        then show ?thesis using q nofile unfolding unfold by auto
      next
        case noA: None
        show ?thesis
        proof (cases ?B)
          case (Some v)
          then show ?thesis using q nofile noA unfolding unfold by auto
        next
          case noB: None
          show ?thesis
          proof (cases "mem_answer m ?q")
            case None
            then show ?thesis using q nofile noA noB unfolding unfold by simp
          next
            case (Some a)
            then show ?thesis using q nofile noA noB unfolding unfold by auto
          qed
        qed
      qed
    qed
  qed
qed

lemma field_action_again:
  assumes "gives_no_answer prompt"
  shows "field_action prompt r c m fld (fst (field_action prompt r c m fld el))
         = field_action prompt r c m fld el"
  using field_action_cases [OF assms, where r = r and c = c and m = m and fld = fld]
  by (auto simp add: file_node_again assign_node_again memory_node_again)

lemma field_action_throw:
  assumes "gives_no_answer prompt"
    and "snd (field_action prompt r c m fld el)"
  shows "fst (field_action prompt r c m fld el) = el"
  using field_action_cases [OF assms(1), where r = r and c = c and m = m and fld = fld] assms(2)
  by (auto simp add: assign_node_throw memory_node_throw)

lemma field_node_again:
  assumes "gives_no_answer prompt"
  shows "field_node prompt r c m fld (fst (field_node prompt r c m fld el))
         = field_node prompt r c m fld el"
proof (cases "n_value el \<noteq> []")
  case True
  then show ?thesis by (simp add: field_node_def)
next
  case False
  let ?G = "field_action prompt r c m fld"
  have first: "field_node prompt r c m fld el = ?G el"
    using False by (simp add: field_node_def)
  show ?thesis
  proof (cases "n_value (fst (?G el)) \<noteq> []")
    case True
    then have "fst (?G el) \<noteq> el"
      using False by auto
    then have "\<not> snd (?G el)"
      using field_action_throw [OF assms, where r = r and c = c and m = m and fld = fld and el = el]
      by blast
    then show ?thesis
      using True by (simp add: first field_node_def prod_eq_iff)
  next
    case False
    then show ?thesis
      by (simp add: first field_node_def field_action_again [OF assms])
  qed
qed

subsection \<open>What the body leaves alone\<close>

lemma keeps_memory_id: "keeps_memory st (Continue st)"
  by (simp add: keeps_memory_def)

lemma attach_file_memory:
  "fs_qaMemory (attach_file fld q a st) = fs_qaMemory st \<and> fs_storage (attach_file fld q a st) = fs_storage st"
  by (simp add: attach_file_def Let_def)

lemma fill_file_field_memory:
  "keeps_memory st (Continue (fill_file_field r c fld q st))"
  by (simp add: keeps_memory_def fill_file_field_def Let_def attach_file_memory split: option.splits)

lemma assign_and_notify_memory: "keeps_memory st (assign_and_notify i v st)"
  by (simp add: keeps_memory_def assign_and_notify_def split: sum.splits)

lemma count_filled_memory: "keeps_memory st r \<Longrightarrow> keeps_memory st (count_filled r)"
  by (cases r) (simp_all add: keeps_memory_def count_filled_def)

lemma fill_from_memory_memory: "keeps_memory st (fill_from_memory fld a st)"
proof (cases "f_tag fld = ''select''")
  case True
  then show ?thesis
    by (simp add: fill_from_memory_def Let_def keeps_memory_def split: sum.splits prod.splits)
next
  case False
  then show ?thesis
    by (simp add: fill_from_memory_def Let_def count_filled_memory assign_and_notify_memory)
qed

lemma ask_required_memory:
  assumes "gives_no_answer prompt"
  shows "keeps_memory st (ask_required prompt fld q st)"
proof -
  let ?msg = "required_prompt (js_or (f_label fld) (js_or (f_placeholder fld) (f_name fld)))"
  have "prompt ?msg = None \<or> prompt ?msg = Some []"
    using assms unfolding gives_no_answer_def by blast
  then show ?thesis
    by (auto simp add: ask_required_def Let_def keeps_memory_def)
qed

lemma fill_field_memory:
  assumes "gives_no_answer prompt"
  shows "keeps_memory st (fill_field prompt r c fld st)"
  unfolding fill_field_def Let_def
  by (simp add: keeps_memory_id fill_file_field_memory count_filled_memory
      assign_and_notify_memory fill_from_memory_memory ask_required_memory [OF assms]
      split: option.splits)

lemma attach_node_static: "static (attach_node a el) = static el"
  by (simp add: attach_node_def static_def)

lemma file_node_static: "static (file_node r c q el) = static el"
  by (simp add: file_node_def attach_node_static split: option.splits)

lemma assign_node_static: "static (fst (assign_node v el)) = static el"
  by (simp add: assign_node_def set_value_def select_set_value_def static_def)

lemma select_node_static: "static (fst (select_node a el)) = static el"
proof -
  have "static (select_set_value el v) = static el" for v
    by (simp add: select_set_value_def static_def)
  then show ?thesis
    by (simp add: select_node_unfold split: sum.splits option.splits)
qed

lemma memory_node_static: "static (fst (memory_node fld a el)) = static el"
  by (simp add: memory_node_def assign_node_static select_node_static)

lemma ask_node_static: "static (fst (ask_node prompt fld el)) = static el"
  by (simp add: ask_node_def assign_node_static select_node_static split: option.splits)

lemma field_node_static: "static (fst (field_node prompt r c m fld el)) = static el"
  by (simp add: field_node_def field_action_def Let_def file_node_static assign_node_static
      memory_node_static ask_node_static split: option.splits)

subsection \<open>The discovered fields\<close>

lemma findAllFields_loop_elements:
  "findAllFields_loop nodes is acc = Inr flds \<Longrightarrow>
   map f_element flds = map f_element acc @ filter (\<lambda>i. is_visible_field (nodes ! i)) is"
proof (induction "is" arbitrary: acc)
  case Nil
  then show ?case by simp
next
  case (Cons i "is")
  show ?case
  proof (cases "is_visible_field (nodes ! i)")
    case False
    then show ?thesis using Cons by simp
  next
    case True
    show ?thesis
    proof (cases "field_label (nodes ! i)")
      case (Inl e)
      then show ?thesis using Cons.prems True by simp
    next
      case (Inr label)
      then have "findAllFields_loop nodes is (acc @ [describe_field i (nodes ! i) label]) = Inr flds"
        using Cons.prems True by simp
      from Cons.IH [OF this] show ?thesis
        using True by (simp add: describe_field_def)
    qed
  qed
qed

lemma findAllFields_elements:
  assumes "findAllFields p = Inr flds"
  shows "distinct (map f_element flds) \<and> (\<forall>fld \<in> set flds. f_element fld < length (p_nodes p))"
proof -
  have eq: "map f_element flds
      = filter (\<lambda>i. is_visible_field (p_nodes p ! i)) (querySelectorAll is_form_control p)"
    using findAllFields_loop_elements [of "p_nodes p" _ "[]" flds] assms
    by (simp add: findAllFields_def)
  have "distinct (map f_element flds)"
    unfolding eq querySelectorAll_def by simp
  moreover have "set (map f_element flds) \<subseteq> {0..<length (p_nodes p)}"
    unfolding eq querySelectorAll_def by auto
  ultimately show ?thesis by auto
qed

lemma static_attributes:
  "is_form_control (static el) = is_form_control el"
  "is_visible_field (static el) = is_visible_field el"
  "field_label (static el) = field_label el"
  "describe_field i (static el) l = describe_field i el l"
  by (simp_all add: static_def is_form_control_def is_visible_field_def field_label_def
      describe_field_def cong: list.case_cong)

lemma static_same:
  assumes "static el' = static el"
  shows "is_form_control el' = is_form_control el"
    and "is_visible_field el' = is_visible_field el"
    and "field_label el' = field_label el"
    and "describe_field i el' l = describe_field i el l"
proof -
  show "is_form_control el' = is_form_control el"
    using static_attributes(1) [of el'] static_attributes(1) [of el] by (simp only: assms)
  show "is_visible_field el' = is_visible_field el"
    using static_attributes(2) [of el'] static_attributes(2) [of el] by (simp only: assms)
  show "field_label el' = field_label el"
    using static_attributes(3) [of el'] static_attributes(3) [of el] by (simp only: assms)
  show "describe_field i el' l = describe_field i el l"
    using static_attributes(4) [of i el' l] static_attributes(4) [of i el l] by (simp only: assms)
qed

lemma findAllFields_loop_static:
  assumes "\<forall>i \<in> set is. static (nodes' ! i) = static (nodes ! i)"
  shows "findAllFields_loop nodes' is acc = findAllFields_loop nodes is acc"
  using assms
proof (induction "is" arbitrary: acc)
  case Nil
  then show ?case by simp
next
  case (Cons i "is")
  have s: "static (nodes' ! i) = static (nodes ! i)"
    using Cons.prems by simp
  have rest: "\<And>acc. findAllFields_loop nodes' is acc = findAllFields_loop nodes is acc"
    using Cons.IH Cons.prems by simp
  show ?case
    by (simp add: Let_def static_same [OF s] rest split: sum.splits)
qed

lemma findAllFields_static:
  assumes "length nodes' = length (p_nodes p)"
    and "\<forall>i < length (p_nodes p). static (nodes' ! i) = static (p_nodes p ! i)"
  shows "findAllFields (p\<lparr>p_nodes := nodes'\<rparr>) = findAllFields p"
proof -
  have same: "is_form_control (nodes' ! i) = is_form_control (p_nodes p ! i)"
    if "i < length (p_nodes p)" for i
    by (rule static_same(1)) (use assms(2) that in simp)
  have "filter (\<lambda>i. is_form_control (nodes' ! i)) [0..<length (p_nodes p)]
      = filter (\<lambda>i. is_form_control (p_nodes p ! i)) [0..<length (p_nodes p)]"
    by (rule filter_cong) (simp_all add: same)
  then have q: "querySelectorAll is_form_control (p\<lparr>p_nodes := nodes'\<rparr>)
      = querySelectorAll is_form_control p"
    by (simp add: querySelectorAll_def assms(1))
  have "\<forall>i \<in> set (querySelectorAll is_form_control p). static (nodes' ! i) = static (p_nodes p ! i)"
    using assms(2) by (simp add: querySelectorAll_def)
  then have "findAllFields_loop nodes' (querySelectorAll is_form_control p) []
      = findAllFields_loop (p_nodes p) (querySelectorAll is_form_control p) []"
    by (rule findAllFields_loop_static)
  then show ?thesis
    by (simp add: findAllFields_def q)
qed

subsection \<open>The loop\<close>

lemma fill_field_nodes:
  "fs_nodes (step_state (fill_field prompt r c fld st))
     = (fs_nodes st)[f_element fld :=
          fst (field_node prompt r c (fs_qaMemory st) fld (fs_nodes st ! f_element fld))]"
  using fill_field_acts [of fld st prompt r c] by (simp add: acts_as_def)

lemma fill_field_throws:
  "is_throw (fill_field prompt r c fld st)
     = snd (field_node prompt r c (fs_qaMemory st) fld (fs_nodes st ! f_element fld))"
  using fill_field_acts [of fld st prompt r c] by (simp add: acts_as_def)

lemma fill_field_frame:
  "length (fs_nodes (step_state (fill_field prompt r c fld st))) = length (fs_nodes st)"
  "j \<noteq> f_element fld \<Longrightarrow>
     fs_nodes (step_state (fill_field prompt r c fld st)) ! j = fs_nodes st ! j"
  "static (fs_nodes (step_state (fill_field prompt r c fld st)) ! j) = static (fs_nodes st ! j)"
proof -
  show "length (fs_nodes (step_state (fill_field prompt r c fld st))) = length (fs_nodes st)"
    by (simp add: fill_field_nodes)
  show "fs_nodes (step_state (fill_field prompt r c fld st)) ! j = fs_nodes st ! j"
    if "j \<noteq> f_element fld"
    using that by (simp add: fill_field_nodes)
  show "static (fs_nodes (step_state (fill_field prompt r c fld st)) ! j) = static (fs_nodes st ! j)"
  proof (cases "j = f_element fld \<and> j < length (fs_nodes st)")
    case True
    then show ?thesis
      by (simp add: fill_field_nodes field_node_static)
  next
    case False
    then have "fs_nodes (step_state (fill_field prompt r c fld st)) ! j = fs_nodes st ! j"
      by (cases "f_element fld < length (fs_nodes st)")
        (auto simp add: fill_field_nodes list_update_beyond)
    then show ?thesis by simp
  qed
qed

lemma fill_loop_frame:
  "length (fs_nodes (step_state (fill_loop prompt r c flds st))) = length (fs_nodes st)
   \<and> (j \<notin> f_element ` set flds \<longrightarrow>
        fs_nodes (step_state (fill_loop prompt r c flds st)) ! j = fs_nodes st ! j)
   \<and> static (fs_nodes (step_state (fill_loop prompt r c flds st)) ! j) = static (fs_nodes st ! j)"
proof (induction flds arbitrary: st)
  case Nil
  then show ?case by simp
next
  case (Cons fld flds)
  define st' where "st' = step_state (fill_field prompt r c fld st)"
  have f1: "length (fs_nodes st') = length (fs_nodes st)"
    unfolding st'_def by (rule fill_field_frame(1))
  have f2: "fs_nodes st' ! j = fs_nodes st ! j" if "j \<noteq> f_element fld"
    unfolding st'_def using that by (rule fill_field_frame(2))
  have f3: "static (fs_nodes st' ! j) = static (fs_nodes st ! j)"
    unfolding st'_def by (rule fill_field_frame(3))
  show ?case
  proof (cases "fill_field prompt r c fld st")
    case (Continue st2)
    then have "st2 = st'" by (simp add: st'_def)
    then have loop: "fill_loop prompt r c (fld # flds) st = fill_loop prompt r c flds st'"
      using Continue by simp
    show ?thesis
      unfolding loop using Cons.IH [of st'] f1 f2 f3 by auto
  next
    case (Throw e st2)
    then have "st2 = st'" by (simp add: st'_def)
    then have loop: "fill_loop prompt r c (fld # flds) st = Throw e st'"
      using Throw by simp
    show ?thesis
      unfolding loop using f1 f2 f3 by auto
  qed
qed

lemma fill_loop_memory:
  assumes "gives_no_answer prompt"
  shows "fs_qaMemory (step_state (fill_loop prompt r c flds st)) = fs_qaMemory st
       \<and> fs_storage (step_state (fill_loop prompt r c flds st)) = fs_storage st"
proof (induction flds arbitrary: st)
  case Nil
  then show ?case by simp
next
  case (Cons fld flds)
  have keep: "keeps_memory st (fill_field prompt r c fld st)"
    using assms by (rule fill_field_memory)
  show ?case
  proof (cases "fill_field prompt r c fld st")
    case (Continue st')
    then show ?thesis
      using Cons.IH [of st'] keep by (simp add: keeps_memory_def)
  next
    case (Throw e st')
    then show ?thesis
      using keep by (simp add: keeps_memory_def)
  qed
qed

text \<open>
  A second run of the loop, started on the elements the first run left and with the
  same memory, changes no element.
\<close>

lemma fill_loop_again:
  assumes silent: "gives_no_answer prompt"
    and "distinct (map f_element flds)"
    and "\<forall>fld \<in> set flds. f_element fld < length (fs_nodes st)"
    and "fs_nodes st2 = fs_nodes (step_state (fill_loop prompt r c flds st))"
    and "fs_qaMemory st2 = fs_qaMemory st"
  shows "fs_nodes (step_state (fill_loop prompt r c flds st2)) = fs_nodes st2"
  using assms(2-)
proof (induction flds arbitrary: st st2)
  case Nil
  then show ?case by simp
next
  case (Cons fld flds)
  let ?i = "f_element fld"
  define eff where "eff = field_node prompt r c (fs_qaMemory st) fld (fs_nodes st ! ?i)"
  define st' where "st' = step_state (fill_field prompt r c fld st)"
  define st2' where "st2' = step_state (fill_field prompt r c fld st2)"
  have i_lt: "?i < length (fs_nodes st)"
    using Cons.prems(2) by simp
  have i_fresh: "?i \<notin> f_element ` set flds"
    using Cons.prems(1) by auto
  have n': "fs_nodes st' = (fs_nodes st)[?i := fst eff]"
    unfolding st'_def eff_def by (rule fill_field_nodes)
  have thr: "is_throw (fill_field prompt r c fld st) = snd eff"
    unfolding eff_def by (rule fill_field_throws)
  have m': "fs_qaMemory st' = fs_qaMemory st"
    using fill_field_memory [OF silent, of st r c fld] by (simp add: keeps_memory_def st'_def)
  have first: "fs_nodes st2 ! ?i = fst eff \<and> length (fs_nodes st2) = length (fs_nodes st)"
  proof (cases "fill_field prompt r c fld st")
    case (Continue sa)
    then have "fs_nodes st2 = fs_nodes (step_state (fill_loop prompt r c flds st'))"
      using Cons.prems(3) by (simp add: st'_def)
    then show ?thesis
      using fill_loop_frame [of prompt r c flds st' ?i] i_fresh i_lt by (simp add: n')
  next
    case (Throw e sa)
    then have "fs_nodes st2 = fs_nodes st'"
      using Cons.prems(3) by (simp add: st'_def)
    then show ?thesis
      using i_lt by (simp add: n')
  qed
  have eff2: "field_node prompt r c (fs_qaMemory st2) fld (fs_nodes st2 ! ?i) = eff"
    using first Cons.prems(4) field_node_again [OF silent, of r c "fs_qaMemory st" fld "fs_nodes st ! ?i"]
    by (simp add: eff_def)
  have n2': "fs_nodes st2' = fs_nodes st2"
  proof -
    have "fs_nodes st2' = (fs_nodes st2)[?i := fst eff]"
      unfolding st2'_def using fill_field_nodes [of prompt r c fld st2] by (simp add: eff2)
    then show ?thesis
      using first by (metis list_update_id)
  qed
  have thr2: "is_throw (fill_field prompt r c fld st2) = snd eff"
    using fill_field_throws [of prompt r c fld st2] by (simp add: eff2)
  have m2': "fs_qaMemory st2' = fs_qaMemory st2"
    using fill_field_memory [OF silent, of st2 r c fld] by (simp add: keeps_memory_def st2'_def)
  show ?case
  proof (cases "fill_field prompt r c fld st")
    case (Continue sa)
    then have sa: "sa = st'" by (simp add: st'_def)
    have "\<not> snd eff" using thr Continue by simp
    then obtain sb where second: "fill_field prompt r c fld st2 = Continue sb"
      using thr2 by (cases "fill_field prompt r c fld st2") auto
    then have sb: "sb = st2'" by (simp add: st2'_def)
    have "fs_nodes (step_state (fill_loop prompt r c flds st2')) = fs_nodes st2'"
    proof (rule Cons.IH [of st' st2'])
      show "distinct (map f_element flds)"
        using Cons.prems(1) by simp
      show "\<forall>fld \<in> set flds. f_element fld < length (fs_nodes st')"
        using Cons.prems(2) by (simp add: n')
      show "fs_nodes st2' = fs_nodes (step_state (fill_loop prompt r c flds st'))"
        using Cons.prems(3) Continue by (simp add: n2' sa)
      show "fs_qaMemory st2' = fs_qaMemory st'"
        using Cons.prems(4) by (simp add: m2' m')
    qed
    then show ?thesis
      using second by (simp add: sb n2')
  next
    case (Throw e sa)
    then have "snd eff" using thr by simp
    then obtain e2 sb where second: "fill_field prompt r c fld st2 = Throw e2 sb"
      using thr2 by (cases "fill_field prompt r c fld st2") auto
    then have sb: "sb = st2'" by (simp add: st2'_def)
    show ?thesis
      using second by (simp add: sb n2')
  qed
qed

subsection \<open>Idempotence\<close>

lemma fillFormWithMemory_shape:
  assumes "findAllFields p = Inr flds"
  shows "o_page (fillFormWithMemory prompt stg p)
           = p\<lparr>p_nodes := fs_nodes (step_state (fill_loop prompt (s_resume stg) (s_coverLetter stg) flds
                                                 (initial_fill_state stg p)))\<rparr>
       \<and> o_storage (fillFormWithMemory prompt stg p)
           = fs_storage (step_state (fill_loop prompt (s_resume stg) (s_coverLetter stg) flds
                                       (initial_fill_state stg p)))"
  using assms
  by (cases "fill_loop prompt (s_resume stg) (s_coverLetter stg) flds (initial_fill_state stg p)")
    (simp_all add: fillFormWithMemory_def)

text \<open>
  C8. When the human gives no answer, a second pass over the page the first pass left,
  with the storage the first pass left, ends with the same page and the same storage:
  it changes no element. A field whose element holds a value makes the loop body
  return at once, in any state.
\<close>

theorem fill_pass_idempotent:
  assumes "gives_no_answer prompt"
  shows "o_page (fillFormWithMemory prompt (o_storage (fillFormWithMemory prompt stg p))
                  (o_page (fillFormWithMemory prompt stg p)))
           = o_page (fillFormWithMemory prompt stg p)
       \<and> o_storage (fillFormWithMemory prompt (o_storage (fillFormWithMemory prompt stg p))
                  (o_page (fillFormWithMemory prompt stg p)))
           = o_storage (fillFormWithMemory prompt stg p)
       \<and> (n_value (fs_nodes st ! f_element fld) \<noteq> [] \<longrightarrow>
            fill_field prompt r c fld st = Continue st)"
proof (cases "findAllFields p")
  case (Inl e)
  then show ?thesis
    by (simp add: fillFormWithMemory_def fill_field_skips)
next
  case (Inr flds)
  let ?st0 = "initial_fill_state stg p"
  let ?res = "fill_loop prompt (s_resume stg) (s_coverLetter stg) flds ?st0"
  define N1 where "N1 = fs_nodes (step_state ?res)"
  define p1 where "p1 = p\<lparr>p_nodes := N1\<rparr>"
  have stor: "fs_storage (step_state ?res) = stg"
    using fill_loop_memory [OF assms, of "s_resume stg" "s_coverLetter stg" flds ?st0]
    by (simp add: initial_fill_state_def)
  have first: "o_page (fillFormWithMemory prompt stg p) = p1"
    "o_storage (fillFormWithMemory prompt stg p) = stg"
    using fillFormWithMemory_shape [OF Inr, of prompt stg] stor by (simp_all add: p1_def N1_def)
  have frame: "length N1 = length (p_nodes p)"
    "\<And>j. static (N1 ! j) = static (p_nodes p ! j)"
    using fill_loop_frame [of prompt "s_resume stg" "s_coverLetter stg" flds ?st0]
    by (simp_all add: N1_def initial_fill_state_def)
  have "findAllFields p1 = findAllFields p"
    unfolding p1_def using frame by (intro findAllFields_static) simp_all
  then have flds1: "findAllFields p1 = Inr flds"
    using Inr by simp
  let ?st1 = "initial_fill_state stg p1"
  let ?res1 = "fill_loop prompt (s_resume stg) (s_coverLetter stg) flds ?st1"
  have elems: "distinct (map f_element flds)"
    "\<forall>fld \<in> set flds. f_element fld < length (fs_nodes ?st0)"
    using findAllFields_elements [OF Inr] by (simp_all add: initial_fill_state_def)
  have again: "fs_nodes (step_state ?res1) = fs_nodes ?st1"
    using assms elems
  proof (rule fill_loop_again)
    show "fs_nodes ?st1 = fs_nodes (step_state ?res)"
      by (simp add: initial_fill_state_def p1_def N1_def)
    show "fs_qaMemory ?st1 = fs_qaMemory ?st0"
      by (simp add: initial_fill_state_def)
  qed
  have stor1: "fs_storage (step_state ?res1) = stg"
    using fill_loop_memory [OF assms, of "s_resume stg" "s_coverLetter stg" flds ?st1]
    by (simp add: initial_fill_state_def)
  have second: "o_page (fillFormWithMemory prompt stg p1) = p1"
    "o_storage (fillFormWithMemory prompt stg p1) = stg"
    using fillFormWithMemory_shape [OF flds1, of prompt stg] again stor1
    by (simp_all add: initial_fill_state_def p1_def)
  show ?thesis
    by (simp add: first second fill_field_skips)
qed

theorem fill_pass_idempotent_witness:
  "gives_no_answer silent_human
   \<and> o_page (fillFormWithMemory silent_human
               (o_storage (fillFormWithMemory silent_human textual_storage experience_page))
               (o_page (fillFormWithMemory silent_human textual_storage experience_page)))
       = o_page (fillFormWithMemory silent_human textual_storage experience_page)
   \<and> map n_value (p_nodes (o_page (fillFormWithMemory silent_human textual_storage experience_page)))
       = [''2'', ''9998887777'']"
proof -
  have quiet: "gives_no_answer silent_human"
    by (simp add: gives_no_answer_def silent_human_def)
  have vals: "map n_value (p_nodes (o_page (fillFormWithMemory silent_human textual_storage experience_page)))
       = [''2'', ''9998887777'']"
    by code_simp
  show ?thesis
    using fill_pass_idempotent [OF quiet, of textual_storage experience_page] quiet vals by simp
qed

section \<open>Properties of the panel loop\<close>

lemma sidebar_attempt_cooperative:
  assumes "cooperative h (ps_qaMemory st) (ps_page st)"
  shows "sidebar_attempt h prompt st
         = Inr (st\<lparr>ps_page := after_attempt h (ps_qaMemory st) (ps_page st)\<rparr>)"
proof -
  let ?p1 = "react h (Sleep 1000) (ps_page st)"
  let ?data = "findNaukriSidebar ?p1"
  let ?q = "trim (toLowerCase (hd (sd_questions ?data)))"
  from assms obtain answer where
    found: "sd_found ?data" "sd_questions ?data \<noteq> []" "sd_inputs ?data \<noteq> []"
    and ans: "mem_answer (ps_qaMemory st) ?q = Some answer"
    and filled: "fst (fillNaukriInput h answer ?p1)"
    and clicked: "fst (clickNaukriSaveButton h (snd (fillNaukriInput h answer ?p1)))"
    by (auto simp add: cooperative_def Let_def split: option.splits)
  obtain p2 where p2: "fillNaukriInput h answer ?p1 = (True, p2)"
    using filled by (cases "fillNaukriInput h answer ?p1") auto
  obtain p3 where p3: "clickNaukriSaveButton h p2 = (True, p3)"
    using clicked p2 by (cases "clickNaukriSaveButton h p2") auto
  have res: "resolve_answer prompt (hd (sd_questions ?data)) (st\<lparr>ps_page := ?p1\<rparr>)
      = (Some answer, st\<lparr>ps_page := ?p1\<rparr>)"
    using ans by (simp add: resolve_answer_def Let_def)
  have aft: "after_attempt h (ps_qaMemory st) (ps_page st) = react h (Sleep 2000) p3"
    using ans p2 p3 by (simp add: after_attempt_def Let_def)
  show ?thesis
    using found res p2 p3 by (simp add: sidebar_attempt_def Let_def aft)
qed

lemma sidebar_loop_bound:
  "fst (snd (sidebar_loop h prompt attempt st)) \<le> max attempt maxAttempts"
proof (induction h prompt attempt st rule: sidebar_loop.induct)
  case (1 h prompt attempt st)
  show ?case
  proof (cases "attempt < maxAttempts")
    case False
    then show ?thesis by (simp add: sidebar_loop.simps [of h prompt attempt st])
  next
    case True
    show ?thesis
    proof (cases "sidebar_attempt h prompt st")
      case (Inl stop)
      then show ?thesis
        using True by (cases stop) (simp add: sidebar_loop.simps [of h prompt attempt st])
    next
      case (Inr st')
      then show ?thesis
        using True "1.IH" [of st'] by (simp add: sidebar_loop.simps [of h prompt attempt st])
    qed
  qed
qed

lemma sidebar_loop_runaway:
  assumes "attempt \<le> maxAttempts"
    and "\<forall>n < maxAttempts - attempt.
           cooperative h (ps_qaMemory st) ((after_attempt h (ps_qaMemory st) ^^ n) (ps_page st))"
  shows "sidebar_loop h prompt attempt st
         = (MaxAttemptsReached, maxAttempts,
            st\<lparr>ps_page := (after_attempt h (ps_qaMemory st) ^^ (maxAttempts - attempt)) (ps_page st)\<rparr>)"
  using assms
proof (induction h prompt attempt st rule: sidebar_loop.induct)
  case (1 h prompt attempt st)
  show ?case
  proof (cases "attempt < maxAttempts")
    case False
    then have "attempt = maxAttempts" using "1.prems"(1) by simp
    then show ?thesis by (simp add: sidebar_loop.simps [of h prompt attempt st])
  next
    case True
    let ?m = "ps_qaMemory st"
    let ?st' = "st\<lparr>ps_page := after_attempt h ?m (ps_page st)\<rparr>"
    have "cooperative h ?m ((after_attempt h ?m ^^ 0) (ps_page st))"
      using "1.prems"(2) True by (metis zero_less_diff)
    then have step: "sidebar_attempt h prompt st = Inr ?st'"
      using sidebar_attempt_cooperative by simp
    have later: "\<forall>n < maxAttempts - (attempt + 1).
        cooperative h (ps_qaMemory ?st') ((after_attempt h (ps_qaMemory ?st') ^^ n) (ps_page ?st'))"
    proof (intro allI impI)
      fix n assume "n < maxAttempts - (attempt + 1)"
      then have "Suc n < maxAttempts - attempt" by simp
      then have "cooperative h ?m ((after_attempt h ?m ^^ Suc n) (ps_page st))"
        using "1.prems"(2) by blast
      then show "cooperative h (ps_qaMemory ?st') ((after_attempt h (ps_qaMemory ?st') ^^ n) (ps_page ?st'))"
        by (simp add: funpow_swap1)
    qed
    have "sidebar_loop h prompt (attempt + 1) ?st'
        = (MaxAttemptsReached, maxAttempts,
           ?st'\<lparr>ps_page := (after_attempt h (ps_qaMemory ?st') ^^ (maxAttempts - (attempt + 1))) (ps_page ?st')\<rparr>)"
      using "1.IH" [OF True step] True later by simp
    moreover have "(after_attempt h ?m ^^ (maxAttempts - (attempt + 1))) (after_attempt h ?m (ps_page st))
        = (after_attempt h ?m ^^ (maxAttempts - attempt)) (ps_page st)"
    proof -
      have "maxAttempts - attempt = Suc (maxAttempts - (attempt + 1))"
        using True by simp
      then show ?thesis by (simp add: funpow_swap1)
    qed
    ultimately show ?thesis
      using True step by (simp add: sidebar_loop.simps [of h prompt attempt st])
  qed
qed


text \<open>
  C1. \<open>handleNaukriSidebar\<close> always returns, with its attempt counter at most 20. On
  a page that at the start of each of the first 20 iterations yields a sidebar with a
  question and an empty input, an answer in the memory, an input that can be filled
  and a save button that can be clicked, the loop runs exactly 20 iterations and then
  ends because the counter has reached the maximum; the human is never asked and the
  memory and the storage are as they were.
\<close>

theorem panel_loop_terminates:
  "fst (snd (handleNaukriSidebar h prompt stg p)) \<le> 20
   \<and> ((\<forall>n < 20. cooperative h (stored_memory stg) ((after_attempt h (stored_memory stg) ^^ n) p)) \<longrightarrow>
        handleNaukriSidebar h prompt stg p
          = (MaxAttemptsReached, 20,
             \<lparr>ps_page = (after_attempt h (stored_memory stg) ^^ 20) p,
              ps_qaMemory = stored_memory stg, ps_storage = stg, ps_prompts = []\<rparr>))"
proof -
  let ?st = "\<lparr>ps_page = p, ps_qaMemory = stored_memory stg, ps_storage = stg, ps_prompts = []\<rparr>"
  have bound: "fst (snd (handleNaukriSidebar h prompt stg p)) \<le> 20"
    using sidebar_loop_bound [of h prompt 0 ?st]
    by (simp add: handleNaukriSidebar_def maxAttempts_def)
  have run: "handleNaukriSidebar h prompt stg p
          = (MaxAttemptsReached, 20,
             \<lparr>ps_page = (after_attempt h (stored_memory stg) ^^ 20) p,
              ps_qaMemory = stored_memory stg, ps_storage = stg, ps_prompts = []\<rparr>)"
    if "\<forall>n < 20. cooperative h (stored_memory stg) ((after_attempt h (stored_memory stg) ^^ n) p)"
    using sidebar_loop_runaway [of 0 h ?st prompt] that
    by (simp add: handleNaukriSidebar_def maxAttempts_def)
  show ?thesis
    using bound run by blast
qed

lemma sidebar_page_cooperative:
  "cooperative stuck_host (stored_memory notice_storage) sidebar_page"
  by code_simp

lemma sidebar_page_stuck:
  "after_attempt stuck_host (stored_memory notice_storage) sidebar_page = sidebar_page"
  by code_simp

theorem panel_loop_terminates_witness:
  "cooperative stuck_host (stored_memory notice_storage) sidebar_page
   \<and> after_attempt stuck_host (stored_memory notice_storage) sidebar_page = sidebar_page
   \<and> fst (handleNaukriSidebar stuck_host silent_human notice_storage sidebar_page) = MaxAttemptsReached
   \<and> fst (snd (handleNaukriSidebar stuck_host silent_human notice_storage sidebar_page)) = 20
   \<and> ps_page (snd (snd (handleNaukriSidebar stuck_host silent_human notice_storage sidebar_page)))
       = sidebar_page"
proof -
  let ?after = "after_attempt stuck_host (stored_memory notice_storage)"
  have same: "(?after ^^ n) sidebar_page = sidebar_page" for n
    by (induction n) (simp_all add: sidebar_page_stuck)
  then have every: "\<forall>n < 20. cooperative stuck_host (stored_memory notice_storage)
                                ((?after ^^ n) sidebar_page)"
    by (simp add: sidebar_page_cooperative)
  show ?thesis
    using panel_loop_terminates [of stuck_host silent_human notice_storage sidebar_page] every
    by (simp add: same sidebar_page_cooperative sidebar_page_stuck)
qed


end
